theory Spec2Isabelle
  imports
    Main
    "HOL-Library.Word"
    "HOL-Library.AList"
    "HOL-Library.Char_ord"
    "HOL-Library.List_Lexorder"
    "HOL-Library.Product_Lexorder"
begin

section \<open>The RPC dispatch core of \<^verbatim>\<open>src/rpc/server.cpp\<close>\<close>

text \<open>
  A shallow embedding of the command dispatch of \<^verbatim>\<open>src/rpc/server.cpp\<close>: the warmup gate,
  the two command registries, the transformation of named arguments, the tracked
  execution of a command, batch execution, the help listing and the deadline timers.
  Globals of the file become fields of a state record that every operation takes and
  returns; a C++ exception becomes the left summand of the result.
\<close>

subsection \<open>Values, requests and errors\<close>

text \<open>
  Modelled from the spec: the structured value (\<^verbatim>\<open>UniValue\<close>, a library outside the
  repository's sources): null, bool, number, string, array, or object with its entries
  in insertion order.
\<close>

datatype UniValue =
    VNULL
  | VBOOL bool
  | VNUM int
  | VSTR string
  | VARR "UniValue list"
  | VOBJ "(string \<times> UniValue) list"

fun isObject :: "UniValue \<Rightarrow> bool" where
  "isObject (VOBJ kvs) = True"
| "isObject v = False"

text \<open>\<^verbatim>\<open>UniValue::size()\<close>: the number of elements of an array or object, 0 for a scalar.\<close>

fun size_uv :: "UniValue \<Rightarrow> nat" where
  "size_uv (VARR vs) = length vs"
| "size_uv (VOBJ kvs) = length kvs"
| "size_uv v = 0"

text \<open>
  The error codes the file uses, an enumeration declared in \<^verbatim>\<open>rpc/protocol.h\<close>; only
  their names matter here.
\<close>

datatype RPCErrorCode =
    RPC_INVALID_REQUEST
  | RPC_METHOD_NOT_FOUND
  | RPC_INTERNAL_ERROR
  | RPC_PARSE_ERROR
  | RPC_MISC_ERROR
  | RPC_TYPE_ERROR
  | RPC_INVALID_PARAMETER
  | RPC_IN_WARMUP

text \<open>
  What a C++ function of the file can throw: \<^verbatim>\<open>throw JSONRPCError(code, message)\<close> throws a
  JSON error object (caught by \<^verbatim>\<open>catch (const UniValue &)\<close>); everything else that is
  caught is a \<^verbatim>\<open>std::exception\<close> with its \<^verbatim>\<open>what()\<close> text.
\<close>

datatype exn =
    JSONRPCError RPCErrorCode string
  | StdException string

record JSONRPCRequest =
  id_val :: UniValue
  strMethod :: string
  params :: UniValue
  fHelp :: bool

subsection \<open>Named arguments\<close>

text \<open>
  \<^verbatim>\<open>boost::algorithm::split(v, s, is_any_of("|"))\<close>: the pieces of \<open>s\<close> between the bars;
  adjacent bars give empty pieces, and the result always has at least one piece.
\<close>

fun boost_split :: "string \<Rightarrow> string list" where
  "boost_split [] = [[]]"
| "boost_split (c # cs) =
     (if c = CHR ''|'' then [] # boost_split cs
      else (case boost_split cs of
              [] \<Rightarrow> [[c]]
            | t # ts \<Rightarrow> (c # t) # ts))"

text \<open>
  The inner loop of \<^verbatim>\<open>transformNamedArguments\<close>: the first alias of the group that is a key
  of \<open>argsIn\<close>, with its value.
\<close>

fun find_alias :: "string list \<Rightarrow> (string \<times> UniValue) list \<Rightarrow> (string \<times> UniValue) option" where
  "find_alias [] argsIn = None"
| "find_alias (argName # rest) argsIn =
     (case map_of argsIn argName of
        Some v \<Rightarrow> Some (argName, v)
      | None \<Rightarrow> find_alias rest argsIn)"

text \<open>
  The loop over the declared parameters. \<open>hole\<close> counts the declared parameters passed
  over since the last match; the nulls for them are pushed only when a later parameter
  matches.
\<close>

fun process_argNames ::
  "string list \<Rightarrow> (string \<times> UniValue) list \<Rightarrow> nat \<Rightarrow> UniValue list
    \<Rightarrow> UniValue list \<times> (string \<times> UniValue) list" where
  "process_argNames [] argsIn hole out = (out, argsIn)"
| "process_argNames (argNamePattern # rest) argsIn hole out =
     (case find_alias (boost_split argNamePattern) argsIn of
        Some (k, v) \<Rightarrow>
          process_argNames rest (AList.delete k argsIn) 0 (out @ replicate hole VNULL @ [v])
      | None \<Rightarrow> process_argNames rest argsIn (hole + 1) out)"

text \<open>
  \<^verbatim>\<open>transformNamedArguments\<close>. \<open>argsIn\<close> is the \<^verbatim>\<open>std::unordered_map\<close> from key to value,
  filled in key order (a repeated key keeps its last value). Which key \<^verbatim>\<open>argsIn.begin()\<close>
  names when several are left over is the container's choice; the entries are kept
  here in order of first insertion and the first is named, and no property below
  depends on that choice, which is forced when one key is left.
  \<^verbatim>\<open>getKeys()\<close> of a value that is not an object throws \<^verbatim>\<open>std::runtime_error\<close>.
\<close>

definition transformNamedArguments ::
  "JSONRPCRequest \<Rightarrow> string list \<Rightarrow> exn + JSONRPCRequest" where
  "transformNamedArguments in_req argNames =
     (case params in_req of
        VOBJ kvs \<Rightarrow>
          (let argsIn = fold (\<lambda>(k, v) m. AList.update k v m) kvs [];
               (out, left) = process_argNames argNames argsIn 0 []
           in if left \<noteq> []
              then Inl (JSONRPCError RPC_INVALID_PARAMETER
                          (''Unknown named parameter '' @ fst (hd left)))
              else Inr (in_req\<lparr>params := VARR out\<rparr>))
      | _ \<Rightarrow> Inl (StdException ''JSON value is not an object as expected''))"

subsection \<open>The globals of the file\<close>

record RPCCommandExecutionInfo =
  method_str :: string
  start :: int

text \<open>
  The file's globals that dispatch reads or writes. \<open>active_commands\<close> is the
  \<^verbatim>\<open>std::list\<close> of \<^verbatim>\<open>g_rpc_server_info\<close>; each entry is paired with the identity of its list
  node, which is what the iterator kept by \<^verbatim>\<open>RPCCommandExecution\<close> designates.
  \<open>time_micros\<close> is the reading of the clock behind \<^verbatim>\<open>GetTimeMicros()\<close>, and \<open>world\<close> is
  whatever else a command handler can reach. Clock readings are \<^verbatim>\<open>int64_t\<close> microseconds
  and are taken as integers: the file only subtracts one reading from a later one. The
  clock of the model moves only when a handler moves it, so two readings with no
  handler between them agree; no property below is about a duration.
\<close>

record 'w rpc_state =
  g_rpc_running :: bool
  fRPCInWarmup :: bool
  rpcWarmupStatus :: string
  active_commands :: "(nat \<times> RPCCommandExecutionInfo) list"
  time_micros :: int
  world :: 'w

type_synonym 'w result = "(exn + UniValue) \<times> 'w rpc_state"

type_synonym 'w handler = "'w rpc_state \<Rightarrow> JSONRPCRequest \<Rightarrow> 'w result"

definition GetTimeMicros :: "'w rpc_state \<Rightarrow> int" where
  "GetTimeMicros s = time_micros s"

definition IsRPCRunning :: "'w rpc_state \<Rightarrow> bool" where
  "IsRPCRunning s = g_rpc_running s"

definition StartRPC :: "'w rpc_state \<Rightarrow> 'w rpc_state" where
  "StartRPC s = s\<lparr>g_rpc_running := True\<rparr>"

definition InterruptRPC :: "'w rpc_state \<Rightarrow> 'w rpc_state" where
  "InterruptRPC s = s\<lparr>g_rpc_running := False\<rparr>"

definition SetRPCWarmupStatus :: "string \<Rightarrow> 'w rpc_state \<Rightarrow> 'w rpc_state" where
  "SetRPCWarmupStatus newStatus s = s\<lparr>rpcWarmupStatus := newStatus\<rparr>"

text \<open>\<^verbatim>\<open>SetRPCWarmupFinished\<close> asserts that the server is in warmup; a failed assertion aborts.\<close>

definition SetRPCWarmupFinished :: "'w rpc_state \<Rightarrow> 'w rpc_state option" where
  "SetRPCWarmupFinished s = (if fRPCInWarmup s then Some (s\<lparr>fRPCInWarmup := False\<rparr>) else None)"

text \<open>The initial values of the globals, as the file declares them.\<close>

definition initial_state :: "int \<Rightarrow> 'w \<Rightarrow> 'w rpc_state" where
  "initial_state clock w =
     \<lparr>g_rpc_running = False, fRPCInWarmup = True, rpcWarmupStatus = ''RPC server started'',
      active_commands = [], time_micros = clock, world = w\<rparr>"

subsection \<open>The execution tracker\<close>

text \<open>A node identity that no entry of the list has: the node the insertion allocates.\<close>

definition fresh_node :: "(nat \<times> 'a) list \<Rightarrow> nat" where
  "fresh_node xs = Suc (fold max (map fst xs) 0)"

text \<open>
  The constructor of \<^verbatim>\<open>RPCCommandExecution\<close> inserts \<open>{method, GetTimeMicros()}\<close> at the end
  of the list and keeps the iterator \<open>it\<close>; the destructor erases the node at \<open>it\<close>.
\<close>

definition RPCCommandExecution_ctor :: "string \<Rightarrow> 'w rpc_state \<Rightarrow> nat \<times> 'w rpc_state" where
  "RPCCommandExecution_ctor m s =
     (let it = fresh_node (active_commands s)
      in (it, s\<lparr>active_commands :=
                   active_commands s @ [(it, \<lparr>method_str = m, start = GetTimeMicros s\<rparr>)]\<rparr>))"

definition RPCCommandExecution_dtor :: "nat \<Rightarrow> 'w rpc_state \<Rightarrow> 'w rpc_state" where
  "RPCCommandExecution_dtor it s =
     s\<lparr>active_commands := filter (\<lambda>e. fst e \<noteq> it) (active_commands s)\<rparr>"

text \<open>The state that the constructor leaves: the tracker has a new last entry for \<open>m\<close>.\<close>

definition tracked :: "'w rpc_state \<Rightarrow> string \<Rightarrow> 'w rpc_state" where
  "tracked s m = snd (RPCCommandExecution_ctor m s)"

text \<open>
  \<^verbatim>\<open>g_rpc_server_info\<close> is \<^verbatim>\<open>static\<close>: a handler can reach it only through this file, where
  the constructor and the destructor above are the only writers. A handler that leaves
  the tracker as it found it:
\<close>

definition leaves_tracker :: "('w rpc_state \<Rightarrow> JSONRPCRequest \<Rightarrow> 'r \<times> 'w rpc_state) \<Rightarrow> bool" where
  "leaves_tracker h = (\<forall>s r. active_commands (snd (h s r)) = active_commands s)"

subsection \<open>The two registries\<close>

text \<open>
  A context-free command of the static table. The table holds pointers to commands; a
  pointer is the command's address together with the command it points to.
\<close>

record 'w ContextFreeRPCCommand =
  category :: string
  name :: string
  actor :: "'w handler"
  argNames :: "string list"

type_synonym 'w cmd_ptr = "nat \<times> 'w ContextFreeRPCCommand"

text \<open>\<open>mapCommands\<close>, a \<^verbatim>\<open>std::map\<close>: its entries in ascending order of the key.\<close>

type_synonym 'w CRPCTable = "(string \<times> 'w cmd_ptr) list"

definition call :: "'w cmd_ptr \<Rightarrow> 'w handler" where
  "call pcmd s request = actor (snd pcmd) s request"

text \<open>\<^verbatim>\<open>CRPCTable::operator[]\<close>: the command registered under the name, or the null pointer.\<close>

definition CRPCTable_lookup :: "'w CRPCTable \<Rightarrow> string \<Rightarrow> 'w cmd_ptr option" where
  "CRPCTable_lookup mapCommands nm = map_of mapCommands nm"

definition appendCommand ::
  "'w rpc_state \<Rightarrow> 'w CRPCTable \<Rightarrow> string \<Rightarrow> 'w cmd_ptr \<Rightarrow> bool \<times> 'w CRPCTable" where
  "appendCommand s mapCommands nm pcmd =
     (if IsRPCRunning s then (False, mapCommands)
      else (case map_of mapCommands nm of
              Some found \<Rightarrow> (False, mapCommands)
            | None \<Rightarrow> (True, insort_key fst (nm, pcmd) mapCommands)))"

definition listCommands :: "'w CRPCTable \<Rightarrow> string list" where
  "listCommands mapCommands = map fst mapCommands"

text \<open>A command of the dynamic registry, with its own \<open>Execute\<close>.\<close>

record 'w RPCCommand =
  GetName :: string
  Execute :: "'w handler"

type_synonym 'w RPCCommandMap = "string \<rightharpoonup> 'w RPCCommand"

text \<open>
  \<^verbatim>\<open>RPCServer::RegisterCommand\<close>; the argument is a \<^verbatim>\<open>unique_ptr\<close>, which can be null, and
  the map's \<^verbatim>\<open>insert\<close> leaves an existing key alone.
\<close>

definition RegisterCommand :: "'w RPCCommandMap \<Rightarrow> 'w RPCCommand option \<Rightarrow> 'w RPCCommandMap" where
  "RegisterCommand commands command =
     (case command of
        None \<Rightarrow> commands
      | Some c \<Rightarrow>
          (case commands (GetName c) of
             Some found \<Rightarrow> commands
           | None \<Rightarrow> commands(GetName c \<mapsto> c)))"

subsection \<open>Dispatch\<close>

text \<open>
  \<^verbatim>\<open>CRPCTable::execute\<close>. The destructor of \<open>execution\<close> runs when the \<^verbatim>\<open>try\<close> block is left,
  by return or by exception, before the \<^verbatim>\<open>catch\<close> clause; the clause catches
  \<^verbatim>\<open>std::exception\<close> only, so a thrown JSON error object passes through.
\<close>

definition execute :: "'w CRPCTable \<Rightarrow> 'w handler" where
  "execute tableRPC s request =
     (if fRPCInWarmup s then (Inl (JSONRPCError RPC_IN_WARMUP (rpcWarmupStatus s)), s)
      else (case CRPCTable_lookup tableRPC (strMethod request) of
              None \<Rightarrow> (Inl (JSONRPCError RPC_METHOD_NOT_FOUND ''Method not found''), s)
            | Some pcmd \<Rightarrow>
                (let (it, s1) = RPCCommandExecution_ctor (strMethod request) s;
                     (r, s2) =
                       (if isObject (params request)
                        then (case transformNamedArguments request (argNames (snd pcmd)) of
                                Inl e \<Rightarrow> (Inl e, s1)
                              | Inr transformed \<Rightarrow> call pcmd s1 transformed)
                        else call pcmd s1 request);
                     s3 = RPCCommandExecution_dtor it s2
                 in (case r of
                       Inl (StdException what) \<Rightarrow> (Inl (JSONRPCError RPC_MISC_ERROR what), s3)
                     | _ \<Rightarrow> (r, s3)))))"

text \<open>\<^verbatim>\<open>RPCServer::ExecuteCommand\<close>, over the dynamic registry and the static table.\<close>

definition ExecuteCommand :: "'w RPCCommandMap \<Rightarrow> 'w CRPCTable \<Rightarrow> 'w handler" where
  "ExecuteCommand commands tableRPC s request =
     (if fRPCInWarmup s then (Inl (JSONRPCError RPC_IN_WARMUP (rpcWarmupStatus s)), s)
      else (case commands (strMethod request) of
              Some cmd \<Rightarrow> Execute cmd s request
            | None \<Rightarrow> execute tableRPC s request))"

text \<open>
  \<^verbatim>\<open>getrpcinfo\<close>, the built-in command that reports the tracker. \<open>usage\<close> is the text its
  \<^verbatim>\<open>RPCHelpMan\<close> renders.
\<close>

definition getrpcinfo :: "string \<Rightarrow> 'w handler" where
  "getrpcinfo usage s request =
     (if fHelp request \<or> size_uv (params request) > 0 then (Inl (StdException usage), s)
      else (Inr (VOBJ [(''active_commands'',
                        VARR (map (\<lambda>info. VOBJ [(''method'', VSTR (method_str info)),
                                                 (''duration'', VNUM (GetTimeMicros s - start info))])
                                  (map snd (active_commands s))))]), s))"

subsection \<open>Batches\<close>

text \<open>
  Modelled from the spec: the reply envelope that \<^verbatim>\<open>JSONRPCReplyObj\<close> (not in this file)
  builds, \<open>{result, error, id}\<close>, where \<open>error\<close> is absent or a code with a message and
  the result is null when there is an error.
\<close>

record JSONRPCReply =
  reply_result :: UniValue
  reply_error :: "(RPCErrorCode \<times> string) option"
  reply_id :: UniValue

definition JSONRPCReplyObj ::
  "UniValue \<Rightarrow> (RPCErrorCode \<times> string) option \<Rightarrow> UniValue \<Rightarrow> JSONRPCReply" where
  "JSONRPCReplyObj result error ident =
     \<lparr>reply_result = (case error of None \<Rightarrow> result | Some e \<Rightarrow> VNULL),
      reply_error = error, reply_id = ident\<rparr>"

text \<open>
  \<^verbatim>\<open>JSONRPCExecOne\<close>. \<^verbatim>\<open>JSONRPCRequest::parse\<close> is not in this file and is the parameter
  \<open>parse\<close>: it updates the request in place and may throw, so it returns the request
  as it leaves it and the exception, if any. The first \<^verbatim>\<open>catch\<close> clause takes a thrown
  JSON error object as the error of the reply, the second turns a \<^verbatim>\<open>std::exception\<close>
  into \<open>RPC_PARSE_ERROR\<close> with its text.
\<close>

definition JSONRPCExecOne ::
  "(UniValue \<Rightarrow> JSONRPCRequest \<Rightarrow> JSONRPCRequest \<times> exn option)
    \<Rightarrow> 'w RPCCommandMap \<Rightarrow> 'w CRPCTable \<Rightarrow> 'w rpc_state \<Rightarrow> JSONRPCRequest \<Rightarrow> UniValue
    \<Rightarrow> JSONRPCReply \<times> 'w rpc_state" where
  "JSONRPCExecOne parse commands tableRPC s jreq req =
     (let (jreq1, thrown) = parse req jreq;
          (outcome, s1) =
            (case thrown of
               Some e \<Rightarrow> (Inl e, s)
             | None \<Rightarrow> ExecuteCommand commands tableRPC s jreq1)
      in (case outcome of
            Inr result \<Rightarrow> JSONRPCReplyObj result None (id_val jreq1)
          | Inl (JSONRPCError code message) \<Rightarrow>
              JSONRPCReplyObj VNULL (Some (code, message)) (id_val jreq1)
          | Inl (StdException what) \<Rightarrow>
              JSONRPCReplyObj VNULL (Some (RPC_PARSE_ERROR, what)) (id_val jreq1),
          s1))"

text \<open>
  \<^verbatim>\<open>vReq.size()\<close> and \<^verbatim>\<open>vReq[i]\<close>: the elements of an array, the values of an object, nothing
  for a scalar.
\<close>

fun elements :: "UniValue \<Rightarrow> UniValue list" where
  "elements (VARR vs) = vs"
| "elements (VOBJ kvs) = map snd kvs"
| "elements v = []"

text \<open>The loop of \<^verbatim>\<open>JSONRPCExecBatch\<close>: every element starts from the same \<open>jreq\<close>.\<close>

fun exec_each ::
  "(UniValue \<Rightarrow> JSONRPCRequest \<Rightarrow> JSONRPCRequest \<times> exn option)
    \<Rightarrow> 'w RPCCommandMap \<Rightarrow> 'w CRPCTable \<Rightarrow> 'w rpc_state \<Rightarrow> JSONRPCRequest \<Rightarrow> UniValue list
    \<Rightarrow> JSONRPCReply list \<times> 'w rpc_state" where
  "exec_each parse commands tableRPC s jreq [] = ([], s)"
| "exec_each parse commands tableRPC s jreq (req # reqs) =
     (let (reply, s1) = JSONRPCExecOne parse commands tableRPC s jreq req;
          (ret, s2) = exec_each parse commands tableRPC s1 jreq reqs
      in (reply # ret, s2))"

text \<open>
  \<^verbatim>\<open>JSONRPCExecBatch\<close>; \<open>write_arr\<close> is \<^verbatim>\<open>UniValue::write\<close> on the array of replies.
\<close>

definition JSONRPCExecBatch ::
  "(UniValue \<Rightarrow> JSONRPCRequest \<Rightarrow> JSONRPCRequest \<times> exn option)
    \<Rightarrow> (JSONRPCReply list \<Rightarrow> string)
    \<Rightarrow> 'w RPCCommandMap \<Rightarrow> 'w CRPCTable \<Rightarrow> 'w rpc_state \<Rightarrow> JSONRPCRequest \<Rightarrow> UniValue
    \<Rightarrow> string \<times> 'w rpc_state" where
  "JSONRPCExecBatch parse write_arr commands tableRPC s jreq vReq =
     (let (ret, s1) = exec_each parse commands tableRPC s jreq (elements vReq)
      in (write_arr ret @ ''\<newline>'', s1))"

text \<open>
  Modelled from the spec: a parse of the wire-level request of section 6, an object
  \<open>{method: string, params: array | object, id: any}\<close>, standing for
  \<^verbatim>\<open>JSONRPCRequest::parse\<close>, which is not in this file. Any other value is a malformed request
  envelope; the failure is a \<^verbatim>\<open>std::exception\<close>, the kind that gives the parse-error
  envelope of section 7.
\<close>

definition parse_wire :: "UniValue \<Rightarrow> JSONRPCRequest \<Rightarrow> JSONRPCRequest \<times> exn option" where
  "parse_wire req jreq =
     (case req of
        VOBJ kvs \<Rightarrow>
          (case (map_of kvs ''method'', map_of kvs ''params'', map_of kvs ''id'') of
             (Some (VSTR m), Some (VARR ps), Some i) \<Rightarrow>
               (jreq\<lparr>id_val := i, strMethod := m, params := VARR ps\<rparr>, None)
           | (Some (VSTR m), Some (VOBJ ps), Some i) \<Rightarrow>
               (jreq\<lparr>id_val := i, strMethod := m, params := VOBJ ps\<rparr>, None)
           | _ \<Rightarrow> (jreq, Some (StdException ''Invalid Request object'')))
      | _ \<Rightarrow> (jreq, Some (StdException ''Invalid Request object'')))"

subsection \<open>Help\<close>

text \<open>
  \<^verbatim>\<open>strHelp.substr(0, strHelp.find('\n'))\<close>, applied when the text has a newline: the text
  up to its first newline.
\<close>

definition first_line :: "string \<Rightarrow> string" where
  "first_line strHelp =
     (if CHR ''\<newline>'' \<in> set strHelp
      then takeWhile (\<lambda>c. c \<noteq> CHR ''\<newline>'') strHelp
      else strHelp)"

text \<open>
  Modelled from the spec: \<^verbatim>\<open>Capitalize\<close> (not in this file) gives the category as the header
  \<open>== Category ==\<close> shows it, with its first letter in upper case.
\<close>

definition Capitalize :: "string \<Rightarrow> string" where
  "Capitalize str =
     (case str of
        [] \<Rightarrow> []
      | c # cs \<Rightarrow>
          (if CHR ''a'' \<le> c \<and> c \<le> CHR ''z'' then char_of (of_char c - (32 :: nat)) else c) # cs)"

text \<open>
  \<open>vCommands\<close> after the sort: the pairs of the string \<open>category + name\<close> (the name is the
  key of the table) and the pointer, in ascending order of the pair; pointers compare
  by address.
\<close>

definition vCommands :: "'w CRPCTable \<Rightarrow> (string \<times> 'w cmd_ptr) list" where
  "vCommands mapCommands =
     sort_key (\<lambda>command. (fst command, fst (snd command)))
       (map (\<lambda>entry. (category (snd (snd entry)) @ fst entry, snd entry)) mapCommands)"

text \<open>The test that decides \<^verbatim>\<open>continue\<close>: the command is passed over.\<close>

definition passed_over :: "string \<Rightarrow> 'w cmd_ptr \<Rightarrow> bool" where
  "passed_over strCommand pcmd =
     ((strCommand \<noteq> [] \<or> category (snd pcmd) = ''hidden'') \<and> name (snd pcmd) \<noteq> strCommand)"

text \<open>
  The loop of \<^verbatim>\<open>CRPCTable::help\<close> over \<open>vCommands\<close>, with the locals \<open>strRet\<close>, \<open>category\<close>
  (here \<open>cat\<close>) and \<open>setDone\<close>. The \<^verbatim>\<open>catch\<close> clause takes a \<^verbatim>\<open>std::exception\<close>; a JSON
  error object thrown by a handler leaves \<open>help\<close>.
\<close>

fun help_loop ::
  "string \<Rightarrow> JSONRPCRequest \<Rightarrow> (string \<times> 'w cmd_ptr) list \<Rightarrow> string \<Rightarrow> string \<Rightarrow> nat set
    \<Rightarrow> 'w rpc_state \<Rightarrow> (exn + string) \<times> 'w rpc_state" where
  "help_loop strCommand jreq [] strRet cat setDone s = (Inr strRet, s)"
| "help_loop strCommand jreq (command # rest) strRet cat setDone s =
     (let pcmd = snd command in
      if passed_over strCommand pcmd then help_loop strCommand jreq rest strRet cat setDone s
      else if fst pcmd \<in> setDone then help_loop strCommand jreq rest strRet cat setDone s
      else (case call pcmd s (jreq\<lparr>strMethod := name (snd pcmd)\<rparr>) of
              (Inr v, s1) \<Rightarrow>
                help_loop strCommand jreq rest strRet cat (insert (fst pcmd) setDone) s1
            | (Inl (JSONRPCError code message), s1) \<Rightarrow> (Inl (JSONRPCError code message), s1)
            | (Inl (StdException what), s1) \<Rightarrow>
                (if strCommand = []
                 then (if cat \<noteq> category (snd pcmd)
                       then help_loop strCommand jreq rest
                              (strRet @ (if cat \<noteq> [] then ''\<newline>'' else [])
                                 @ ''== '' @ Capitalize (category (snd pcmd)) @ '' ==\<newline>''
                                 @ first_line what @ ''\<newline>'')
                              (category (snd pcmd)) (insert (fst pcmd) setDone) s1
                       else help_loop strCommand jreq rest
                              (strRet @ first_line what @ ''\<newline>'')
                              cat (insert (fst pcmd) setDone) s1)
                 else help_loop strCommand jreq rest (strRet @ what @ ''\<newline>'')
                        cat (insert (fst pcmd) setDone) s1)))"

text \<open>\<^verbatim>\<open>CRPCTable::help\<close>; \<^verbatim>\<open>strRet.substr(0, strRet.size() - 1)\<close> drops the last character.\<close>

definition CRPCTable_help ::
  "'w CRPCTable \<Rightarrow> 'w rpc_state \<Rightarrow> string \<Rightarrow> JSONRPCRequest \<Rightarrow> (exn + string) \<times> 'w rpc_state" where
  "CRPCTable_help mapCommands s strCommand helpreq =
     (case help_loop strCommand (helpreq\<lparr>fHelp := True, params := VNULL\<rparr>)
             (vCommands mapCommands) [] [] {} s of
        (Inl e, s1) \<Rightarrow> (Inl e, s1)
      | (Inr strRet, s1) \<Rightarrow>
          (Inr (butlast (if strRet = []
                         then ''help: unknown command: '' @ strCommand @ ''\<newline>''
                         else strRet)), s1))"

subsection \<open>The listing as the specification describes it\<close>

text \<open>
  The text that the loop of \<open>help\<close> appends, with an empty filter, for commands given by
  their category and their summary line, when the category of the last command listed
  is \<open>cat\<close>: a header at every change of category, after an empty line unless it is the
  first.
\<close>

fun listing :: "string \<Rightarrow> (string \<times> string) list \<Rightarrow> string" where
  "listing cat [] = []"
| "listing cat (item # items) =
     (if cat \<noteq> fst item
      then (if cat \<noteq> [] then ''\<newline>'' else []) @ ''== '' @ Capitalize (fst item) @ '' ==\<newline>''
      else [])
     @ snd item @ ''\<newline>'' @ listing (fst item) items"

text \<open>
  The specification's listing: one group for each distinct category, in the order of
  the categories; a group is the header \<open>== Category ==\<close> and then the summary line of
  every command of the category; an empty line separates two groups.
\<close>

definition lines_of :: "string \<Rightarrow> (string \<times> string) list \<Rightarrow> string" where
  "lines_of c items = concat (map (\<lambda>item. snd item @ ''\<newline>'') (filter (\<lambda>item. fst item = c) items))"

definition category_block :: "(string \<times> string) list \<Rightarrow> string \<Rightarrow> string" where
  "category_block items c = ''== '' @ Capitalize c @ '' ==\<newline>'' @ lines_of c items"

fun join_blocks :: "string list \<Rightarrow> string" where
  "join_blocks [] = []"
| "join_blocks [b] = b"
| "join_blocks (b # bs) = b @ ''\<newline>'' @ join_blocks bs"

definition help_spec_listing :: "(string \<times> string) list \<Rightarrow> string" where
  "help_spec_listing items =
     join_blocks (map (category_block items) (remdups_adj (map fst items)))"

subsection \<open>The built-in command \<^verbatim>\<open>uptime\<close>\<close>

definition HelpExampleCli :: "string \<Rightarrow> string \<Rightarrow> string" where
  "HelpExampleCli methodname args = ''> bitcoin-cli '' @ methodname @ '' '' @ args @ ''\<newline>''"

definition HelpExampleRpc :: "string \<Rightarrow> string \<Rightarrow> string" where
  \<open>HelpExampleRpc methodname args =
     ''> curl --user myusername --data-binary '{"jsonrpc": "1.0", ''
     @ ''"id":"curltest", ''
     @ ''"method": "''
     @ methodname @ ''", "params": ['' @ args
     @ ''] }' -H 'content-type: text/plain;' http://127.0.0.1:8332/\<newline>''\<close>

text \<open>
  The usage text that \<^verbatim>\<open>uptime\<close> throws when asked for help or given a parameter;
  \<open>helpman\<close> is what its \<^verbatim>\<open>RPCHelpMan\<close> renders.
\<close>

definition uptime_usage :: "string \<Rightarrow> string" where
  "uptime_usage helpman =
     helpman
     @ ''\<newline>Result:\<newline>''
     @ ''ttt        (numeric) The number of seconds ''
     @ ''that the server has been running\<newline>''
     @ ''\<newline>Examples:\<newline>''
     @ HelpExampleCli ''uptime'' [] @ HelpExampleRpc ''uptime'' []"

text \<open>
  \<^verbatim>\<open>uptime\<close>; \<open>seconds\<close> is the value of \<^verbatim>\<open>GetTime() - GetStartupTime()\<close>, two functions
  outside this file.
\<close>

definition uptime :: "string \<Rightarrow> int \<Rightarrow> 'w handler" where
  "uptime helpman seconds s jsonRequest =
     (if fHelp jsonRequest \<or> size_uv (params jsonRequest) > 0
      then (Inl (StdException (uptime_usage helpman)), s)
      else (Inr (VNUM seconds), s))"

subsection \<open>Deadline timers\<close>

text \<open>
  The timer interface is an object with a factory for timers; \<open>'f\<close> is the type of the
  callbacks and \<open>'t\<close> the type of the timers it makes. The delay is an \<^verbatim>\<open>int64_t\<close>.
\<close>

record ('f, 't) RPCTimerInterface =
  Name :: string
  NewTimer :: "'f \<Rightarrow> 64 word \<Rightarrow> 't"

record ('f, 't) timer_state =
  timerInterface :: "('f, 't) RPCTimerInterface option"
  deadlineTimers :: "string \<rightharpoonup> 't"

definition RPCSetTimerInterfaceIfUnset ::
  "('f, 't) RPCTimerInterface \<Rightarrow> ('f, 't) timer_state \<Rightarrow> ('f, 't) timer_state" where
  "RPCSetTimerInterfaceIfUnset iface ts =
     (case timerInterface ts of
        None \<Rightarrow> ts\<lparr>timerInterface := Some iface\<rparr>
      | Some installed \<Rightarrow> ts)"

definition RPCSetTimerInterface ::
  "('f, 't) RPCTimerInterface \<Rightarrow> ('f, 't) timer_state \<Rightarrow> ('f, 't) timer_state" where
  "RPCSetTimerInterface iface ts = ts\<lparr>timerInterface := Some iface\<rparr>"

text \<open>
  \<^verbatim>\<open>RPCRunLater\<close> returns the exception it throws, if any, and the timer state it leaves.
  \<^verbatim>\<open>emplace\<close> stores nothing when the key is present.
\<close>

definition RPCRunLater ::
  "string \<Rightarrow> 'f \<Rightarrow> 64 word \<Rightarrow> ('f, 't) timer_state \<Rightarrow> exn option \<times> ('f, 't) timer_state" where
  "RPCRunLater nm func nSeconds ts =
     (case timerInterface ts of
        None \<Rightarrow> (Some (JSONRPCError RPC_INTERNAL_ERROR ''No timer handler registered for RPC''), ts)
      | Some iface \<Rightarrow>
          (let erased = (deadlineTimers ts)(nm := None);
               timer = NewTimer iface func (nSeconds * 1000)
           in (None, ts\<lparr>deadlineTimers :=
                          (case erased nm of
                             None \<Rightarrow> erased(nm \<mapsto> timer)
                           | Some present \<Rightarrow> erased)\<rparr>)))"

definition StopRPC_timers :: "('f, 't) timer_state \<Rightarrow> ('f, 't) timer_state" where
  "StopRPC_timers ts = ts\<lparr>deadlineTimers := Map.empty\<rparr>"

section \<open>Properties\<close>

subsection \<open>The warmup gate\<close>

text \<open>
  C1. While the warmup flag is set, \<^verbatim>\<open>RPCServer::ExecuteCommand\<close> and \<^verbatim>\<open>CRPCTable::execute\<close>
  fail with \<open>RPC_IN_WARMUP\<close> and the current warmup status as message, whatever the
  method name, the parameters and the contents of the two registries. The state comes
  back as it was: no handler has run on it and the tracker has no new entry.
\<close>

theorem warmup_rejects_before_lookup:
  "fRPCInWarmup s \<Longrightarrow>
     ExecuteCommand commands tableRPC s request
       = (Inl (JSONRPCError RPC_IN_WARMUP (rpcWarmupStatus s)), s)
     \<and> execute tableRPC s request
       = (Inl (JSONRPCError RPC_IN_WARMUP (rpcWarmupStatus s)), s)"
  by (simp add: ExecuteCommand_def execute_def)

theorem warmup_rejects_before_lookup_witness:
  "ExecuteCommand
     (Map.empty(''getrpcinfo'' \<mapsto> \<lparr>GetName = ''getrpcinfo'', Execute = getrpcinfo ''getrpcinfo''\<rparr>))
     [(''getrpcinfo'', (0, \<lparr>category = ''control'', name = ''getrpcinfo'',
                            actor = getrpcinfo ''getrpcinfo'', argNames = []\<rparr>))]
     (initial_state 0 ())
     \<lparr>id_val = VNUM 1, strMethod = ''getrpcinfo'', params = VARR [], fHelp = False\<rparr>
   = (Inl (JSONRPCError RPC_IN_WARMUP ''RPC server started''), initial_state 0 ())
   \<and> execute
     [(''getrpcinfo'', (0, \<lparr>category = ''control'', name = ''getrpcinfo'',
                            actor = getrpcinfo ''getrpcinfo'', argNames = []\<rparr>))]
     (initial_state 0 ())
     \<lparr>id_val = VNUM 1, strMethod = ''getrpcinfo'', params = VARR [], fHelp = False\<rparr>
   = (Inl (JSONRPCError RPC_IN_WARMUP ''RPC server started''), initial_state 0 ())"
proof -
  have w: "fRPCInWarmup (initial_state 0 ())"
    by (simp add: initial_state_def)
  have st: "rpcWarmupStatus (initial_state 0 ()) = ''RPC server started''"
    by (simp add: initial_state_def)
  show ?thesis
    using warmup_rejects_before_lookup [OF w] by (simp add: st)
qed

subsection \<open>Dispatch to a static command\<close>

lemma execute_static:
  assumes "\<not> fRPCInWarmup s"
    and "CRPCTable_lookup tableRPC (strMethod request) = Some pcmd"
  shows "execute tableRPC s request =
     (let (it, s1) = RPCCommandExecution_ctor (strMethod request) s;
          (r, s2) =
            (if isObject (params request)
             then (case transformNamedArguments request (argNames (snd pcmd)) of
                     Inl e \<Rightarrow> (Inl e, s1)
                   | Inr transformed \<Rightarrow> call pcmd s1 transformed)
             else call pcmd s1 request);
          s3 = RPCCommandExecution_dtor it s2
      in (case r of
            Inl (StdException what) \<Rightarrow> (Inl (JSONRPCError RPC_MISC_ERROR what), s3)
          | _ \<Rightarrow> (r, s3)))"
  using assms by (simp add: execute_def)

subsection \<open>Named arguments\<close>

lemma keys_update: "fst ` set (AList.update k v m) = insert k (fst ` set m)"
  by (induction m) auto

lemma keys_fold_update:
  "fst ` set (fold (\<lambda>(k, v) m. AList.update k v m) kvs m) = fst ` set kvs \<union> fst ` set m"
proof (induction kvs arbitrary: m)
  case Nil
  then show ?case by simp
next
  case (Cons kv kvs)
  obtain k v where kv: "kv = (k, v)" by (cases kv)
  show ?case unfolding kv by (simp add: Cons.IH keys_update)
qed

lemma keys_delete: "fst ` set (AList.delete k m) \<subseteq> fst ` set m"
  by (induction m) auto

lemma find_alias_None:
  "\<forall>a \<in> set as. a \<notin> fst ` set m \<Longrightarrow> find_alias as m = None"
proof (induction as)
  case Nil
  then show ?case by simp
next
  case (Cons a as)
  then have "map_of m a = None" by (simp add: map_of_eq_None_iff)
  then show ?case using Cons by simp
qed

lemma process_argNames_unmatched:
  "\<forall>p \<in> set extra. \<forall>a \<in> set (boost_split p). a \<notin> fst ` set m
    \<Longrightarrow> process_argNames extra m hole out = (out, m)"
proof (induction extra arbitrary: hole)
  case Nil
  then show ?case by simp
next
  case (Cons p ps)
  then have "find_alias (boost_split p) m = None" by (simp add: find_alias_None)
  then show ?case using Cons by simp
qed

text \<open>
  Declared parameters at the end of the list that match no key leave the result of the
  loop as it was: their holes are counted and never filled.
\<close>

lemma process_argNames_trailing:
  "\<forall>p \<in> set extra. \<forall>a \<in> set (boost_split p). a \<notin> fst ` set m
    \<Longrightarrow> process_argNames (declared @ extra) m hole out = process_argNames declared m hole out"
proof (induction declared arbitrary: m hole out)
  case Nil
  then show ?case by (simp add: process_argNames_unmatched)
next
  case (Cons p ps)
  show ?case
  proof (cases "find_alias (boost_split p) m")
    case None
    then show ?thesis using Cons by simp
  next
    case (Some kv)
    obtain k v where kv: "kv = (k, v)" by (cases kv)
    have "\<forall>p \<in> set extra. \<forall>a \<in> set (boost_split p). a \<notin> fst ` set (AList.delete k m)"
    proof (intro ballI)
      fix p a assume "p \<in> set extra" "a \<in> set (boost_split p)"
      then have "a \<notin> fst ` set m" using Cons.prems by blast
      then show "a \<notin> fst ` set (AList.delete k m)" using keys_delete [of k m] by blast
    qed
    then have "process_argNames (ps @ extra) (AList.delete k m) 0 (out @ replicate hole VNULL @ [v])
        = process_argNames ps (AList.delete k m) 0 (out @ replicate hole VNULL @ [v])"
      by (rule Cons.IH)
    then show ?thesis using Some kv by simp
  qed
qed

text \<open>
  C3. With the declared names \<open>a\<close>, \<open>b|c\<close>, \<open>d\<close>, the object \<open>{d: 4, b: 2}\<close> becomes the
  sequence \<open>[null, 2, 4]\<close> and the object \<open>{x: 1}\<close> fails with \<open>RPC_INVALID_PARAMETER\<close>,
  \<open>Unknown named parameter x\<close>. Declared parameters at the end of the list that match
  no key of the object are not emitted: the result is the same as without them.
\<close>

theorem transformNamedArguments_holes:
  "transformNamedArguments (req\<lparr>params := VOBJ [(''d'', VNUM 4), (''b'', VNUM 2)]\<rparr>)
       [''a'', ''b|c'', ''d'']
     = Inr (req\<lparr>params := VARR [VNULL, VNUM 2, VNUM 4]\<rparr>)
   \<and> transformNamedArguments (req\<lparr>params := VOBJ [(''x'', VNUM 1)]\<rparr>) [''a'', ''b|c'', ''d'']
     = Inl (JSONRPCError RPC_INVALID_PARAMETER ''Unknown named parameter x'')
   \<and> ((\<forall>p \<in> set extra. \<forall>a \<in> set (boost_split p). a \<notin> fst ` set kvs) \<longrightarrow>
        transformNamedArguments (req\<lparr>params := VOBJ kvs\<rparr>) (declared @ extra)
        = transformNamedArguments (req\<lparr>params := VOBJ kvs\<rparr>) declared)"
proof (intro conjI impI)
  show "transformNamedArguments (req\<lparr>params := VOBJ [(''d'', VNUM 4), (''b'', VNUM 2)]\<rparr>)
       [''a'', ''b|c'', ''d'']
     = Inr (req\<lparr>params := VARR [VNULL, VNUM 2, VNUM 4]\<rparr>)"
    by (simp add: transformNamedArguments_def)
  show "transformNamedArguments (req\<lparr>params := VOBJ [(''x'', VNUM 1)]\<rparr>) [''a'', ''b|c'', ''d'']
     = Inl (JSONRPCError RPC_INVALID_PARAMETER ''Unknown named parameter x'')"
    by (simp add: transformNamedArguments_def)
next
  assume h: "\<forall>p \<in> set extra. \<forall>a \<in> set (boost_split p). a \<notin> fst ` set kvs"
  have "\<forall>p \<in> set extra. \<forall>a \<in> set (boost_split p).
          a \<notin> fst ` set (fold (\<lambda>(k, v) m. AList.update k v m) kvs [])"
    using h by (simp add: keys_fold_update)
  then have "process_argNames (declared @ extra) (fold (\<lambda>(k, v) m. AList.update k v m) kvs []) 0 []
     = process_argNames declared (fold (\<lambda>(k, v) m. AList.update k v m) kvs []) 0 []"
    by (rule process_argNames_trailing)
  then show "transformNamedArguments (req\<lparr>params := VOBJ kvs\<rparr>) (declared @ extra)
        = transformNamedArguments (req\<lparr>params := VOBJ kvs\<rparr>) declared"
    by (simp add: transformNamedArguments_def)
qed

theorem transformNamedArguments_holes_witness:
  "transformNamedArguments
     \<lparr>id_val = VNULL, strMethod = ''m'', params = VOBJ [(''a'', VNUM 1)], fHelp = False\<rparr>
     [''a'', ''b|c'', ''d'']
   = Inr \<lparr>id_val = VNULL, strMethod = ''m'', params = VARR [VNUM 1], fHelp = False\<rparr>"
proof -
  have h: "\<forall>p \<in> set [''b|c'', ''d'']. \<forall>a \<in> set (boost_split p). a \<notin> fst ` set [(''a'', VNUM 1)]"
    by simp
  have e: "transformNamedArguments
        \<lparr>id_val = VNULL, strMethod = ''m'', params = VOBJ [(''a'', VNUM 1)], fHelp = False\<rparr> [''a'']
      = Inr \<lparr>id_val = VNULL, strMethod = ''m'', params = VARR [VNUM 1], fHelp = False\<rparr>"
    by (simp add: transformNamedArguments_def)
  from transformNamedArguments_holes
    [where req = "\<lparr>id_val = VNULL, strMethod = ''m'', params = VNULL, fHelp = False\<rparr>"
       and extra = "[''b|c'', ''d'']" and kvs = "[(''a'', VNUM 1)]" and declared = "[''a'']"]
  have "transformNamedArguments
        \<lparr>id_val = VNULL, strMethod = ''m'', params = VOBJ [(''a'', VNUM 1)], fHelp = False\<rparr>
        ([''a''] @ [''b|c'', ''d''])
      = transformNamedArguments
        \<lparr>id_val = VNULL, strMethod = ''m'', params = VOBJ [(''a'', VNUM 1)], fHelp = False\<rparr> [''a'']"
    using h by simp
  then show ?thesis using e by simp
qed

subsection \<open>Errors of a static command\<close>

text \<open>
  C4. For a request that \<^verbatim>\<open>CRPCTable::execute\<close> resolves to a static command, let \<open>passed\<close>
  be the outcome of the argument transformation (the request itself when its parameters
  are not an object). A \<^verbatim>\<open>std::exception\<close> raised by the handler on the passed request is
  replaced by \<open>RPC_MISC_ERROR\<close> with the same message; a JSON error object raised by the
  handler, or by the transformation, leaves \<open>execute\<close> with its code and message.
\<close>

theorem execute_normalises_std_exceptions:
  assumes "\<not> fRPCInWarmup s"
    and "CRPCTable_lookup tableRPC (strMethod request) = Some pcmd"
    and "s1 = snd (RPCCommandExecution_ctor (strMethod request) s)"
    and "passed = (if isObject (params request)
                   then transformNamedArguments request (argNames (snd pcmd))
                   else Inr request)"
  shows "(passed = Inr req \<and> fst (call pcmd s1 req) = Inl (StdException msg) \<longrightarrow>
            fst (execute tableRPC s request) = Inl (JSONRPCError RPC_MISC_ERROR msg))
       \<and> (passed = Inr req \<and> fst (call pcmd s1 req) = Inl (JSONRPCError c m) \<longrightarrow>
            fst (execute tableRPC s request) = Inl (JSONRPCError c m))
       \<and> (passed = Inl (JSONRPCError c m) \<longrightarrow>
            fst (execute tableRPC s request) = Inl (JSONRPCError c m))"
  using assms(3,4)
  by (auto simp: execute_static [OF assms(1,2)] Let_def split: prod.splits sum.splits exn.splits if_splits)


lemmas dispatch_defs =
  ExecuteCommand_def execute_def CRPCTable_lookup_def call_def
  RPCCommandExecution_ctor_def RPCCommandExecution_dtor_def
  fresh_node_def GetTimeMicros_def initial_state_def Let_def

theorem execute_normalises_std_exceptions_witness:
  "fst (execute
      [(''boom'', (0, \<lparr>category = ''util'', name = ''boom'',
               actor = (\<lambda>s r. (Inl (StdException ''bad thing''), s)), argNames = [''a'']\<rparr>))]
      ((initial_state 0 ())\<lparr>fRPCInWarmup := False\<rparr>)
      \<lparr>id_val = VNUM 1, strMethod = ''boom'', params = VARR [], fHelp = False\<rparr>)
    = Inl (JSONRPCError RPC_MISC_ERROR ''bad thing'')
   \<and> fst (execute
      [(''deny'', (1, \<lparr>category = ''util'', name = ''deny'',
               actor = (\<lambda>s r. (Inl (JSONRPCError RPC_TYPE_ERROR ''Expected type number''), s)),
               argNames = [''a'']\<rparr>))]
      ((initial_state 0 ())\<lparr>fRPCInWarmup := False\<rparr>)
      \<lparr>id_val = VNUM 2, strMethod = ''deny'', params = VOBJ [(''a'', VNUM 1)], fHelp = False\<rparr>)
    = Inl (JSONRPCError RPC_TYPE_ERROR ''Expected type number'')
   \<and> fst (execute
      [(''deny'', (1, \<lparr>category = ''util'', name = ''deny'',
               actor = (\<lambda>s r. (Inl (JSONRPCError RPC_TYPE_ERROR ''Expected type number''), s)),
               argNames = [''a'']\<rparr>))]
      ((initial_state 0 ())\<lparr>fRPCInWarmup := False\<rparr>)
      \<lparr>id_val = VNUM 3, strMethod = ''deny'', params = VOBJ [(''x'', VNUM 1)], fHelp = False\<rparr>)
    = Inl (JSONRPCError RPC_INVALID_PARAMETER ''Unknown named parameter x'')"
proof -
  let ?s = "(initial_state 0 ())\<lparr>fRPCInWarmup := False\<rparr>"
  let ?boom = "(0, \<lparr>category = ''util'', name = ''boom'',
               actor = (\<lambda>s r. (Inl (StdException ''bad thing''), s)), argNames = [''a'']\<rparr>)"
  let ?deny = "(1, \<lparr>category = ''util'', name = ''deny'',
               actor = (\<lambda>s r. (Inl (JSONRPCError RPC_TYPE_ERROR ''Expected type number''), s)),
               argNames = [''a'']\<rparr>)"
  let ?r1 = "\<lparr>id_val = VNUM 1, strMethod = ''boom'', params = VARR [], fHelp = False\<rparr>"
  let ?r2 = "\<lparr>id_val = VNUM 2, strMethod = ''deny'', params = VOBJ [(''a'', VNUM 1)], fHelp = False\<rparr>"
  let ?r3 = "\<lparr>id_val = VNUM 3, strMethod = ''deny'', params = VOBJ [(''x'', VNUM 1)], fHelp = False\<rparr>"
  have w: "\<not> fRPCInWarmup ?s" by simp
  have a: "fst (execute [(''boom'', ?boom)] ?s ?r1) = Inl (JSONRPCError RPC_MISC_ERROR ''bad thing'')"
    using execute_normalises_std_exceptions
      [OF w, where tableRPC = "[(''boom'', ?boom)]" and request = ?r1 and pcmd = ?boom
         and req = ?r1 and msg = "''bad thing''", OF _ refl refl]
    by (simp add: CRPCTable_lookup_def call_def)
  have b: "fst (execute [(''deny'', ?deny)] ?s ?r2)
      = Inl (JSONRPCError RPC_TYPE_ERROR ''Expected type number'')"
    using execute_normalises_std_exceptions
      [OF w, where tableRPC = "[(''deny'', ?deny)]" and request = ?r2 and pcmd = ?deny
         and req = "?r2\<lparr>params := VARR [VNUM 1]\<rparr>"
         and c = RPC_TYPE_ERROR and m = "''Expected type number''", OF _ refl refl]
    by (simp add: CRPCTable_lookup_def call_def transformNamedArguments_def)
  have c: "fst (execute [(''deny'', ?deny)] ?s ?r3)
      = Inl (JSONRPCError RPC_INVALID_PARAMETER ''Unknown named parameter x'')"
    using execute_normalises_std_exceptions
      [OF w, where tableRPC = "[(''deny'', ?deny)]" and request = ?r3 and pcmd = ?deny
         and c = RPC_INVALID_PARAMETER and m = "''Unknown named parameter x''", OF _ refl refl]
    by (simp add: CRPCTable_lookup_def call_def transformNamedArguments_def)
  show ?thesis using a b c by simp
qed

subsection \<open>Registration\<close>

lemma map_of_insort_key_fresh:
  "k \<notin> fst ` set xs \<Longrightarrow> map_of (insort_key fst (k, v) xs) = (map_of xs)(k \<mapsto> v)"
proof (induction xs)
  case Nil
  then show ?case by simp
next
  case (Cons x xs)
  obtain k' v' where x: "x = (k', v')" by (cases x)
  from Cons.prems x have ne: "k \<noteq> k'" and nin: "k \<notin> fst ` set xs" by auto
  show ?case using Cons.IH [OF nin] ne x by (auto simp: fun_upd_twist)
qed

text \<open>
  C7. \<^verbatim>\<open>CRPCTable::appendCommand\<close> returns false and leaves the table as it is when the
  server is running or the name is already a key of the table. Otherwise it returns
  true, and the new table is the old one with the one entry added: looking the name
  up gives the descriptor, and every other name is looked up as before.
\<close>

theorem appendCommand_guarded:
  "(IsRPCRunning s \<or> nm \<in> fst ` set mapCommands \<longrightarrow>
      appendCommand s mapCommands nm pcmd = (False, mapCommands))
   \<and> (\<not> IsRPCRunning s \<and> nm \<notin> fst ` set mapCommands \<longrightarrow>
      fst (appendCommand s mapCommands nm pcmd) = True
      \<and> set (snd (appendCommand s mapCommands nm pcmd)) = insert (nm, pcmd) (set mapCommands)
      \<and> CRPCTable_lookup (snd (appendCommand s mapCommands nm pcmd))
          = (CRPCTable_lookup mapCommands)(nm \<mapsto> pcmd))"
proof (intro conjI impI)
  assume "IsRPCRunning s \<or> nm \<in> fst ` set mapCommands"
  then show "appendCommand s mapCommands nm pcmd = (False, mapCommands)"
    by (auto simp: appendCommand_def map_of_eq_None_iff split: option.splits)
next
  assume h: "\<not> IsRPCRunning s \<and> nm \<notin> fst ` set mapCommands"
  then have none: "map_of mapCommands nm = None" by (simp add: map_of_eq_None_iff)
  show "fst (appendCommand s mapCommands nm pcmd) = True"
    using h none by (simp add: appendCommand_def)
  show "set (snd (appendCommand s mapCommands nm pcmd)) = insert (nm, pcmd) (set mapCommands)"
    using h none by (simp add: appendCommand_def set_insort_key)
  show "CRPCTable_lookup (snd (appendCommand s mapCommands nm pcmd))
          = (CRPCTable_lookup mapCommands)(nm \<mapsto> pcmd)"
    using h none by (simp add: appendCommand_def CRPCTable_lookup_def map_of_insort_key_fresh fun_eq_iff)
qed

theorem appendCommand_guarded_witness:
  "appendCommand (initial_state 0 ()) [] ''uptime''
      (3, \<lparr>category = ''control'', name = ''uptime'', actor = (\<lambda>s r. (Inr (VNUM 7), s)), argNames = []\<rparr>)
    = (True, [(''uptime'',
        (3, \<lparr>category = ''control'', name = ''uptime'', actor = (\<lambda>s r. (Inr (VNUM 7), s)), argNames = []\<rparr>))])
   \<and> appendCommand (initial_state 0 ())
      [(''uptime'',
        (3, \<lparr>category = ''control'', name = ''uptime'', actor = (\<lambda>s r. (Inr (VNUM 7), s)), argNames = []\<rparr>))]
      ''uptime''
      (4, \<lparr>category = ''hidden'', name = ''uptime'', actor = (\<lambda>s r. (Inr VNULL, s)), argNames = []\<rparr>)
    = (False, [(''uptime'',
        (3, \<lparr>category = ''control'', name = ''uptime'', actor = (\<lambda>s r. (Inr (VNUM 7), s)), argNames = []\<rparr>))])
   \<and> appendCommand (StartRPC (initial_state 0 ())) [] ''uptime''
      (3, \<lparr>category = ''control'', name = ''uptime'', actor = (\<lambda>s r. (Inr (VNUM 7), s)), argNames = []\<rparr>)
    = (False, [])"
proof -
  let ?up = "(3, \<lparr>category = ''control'', name = ''uptime'',
                  actor = (\<lambda>s r. (Inr (VNUM 7), s)), argNames = []\<rparr>)"
  let ?dup = "(4, \<lparr>category = ''hidden'', name = ''uptime'',
                   actor = (\<lambda>s r. (Inr VNULL, s)), argNames = []\<rparr>)"
  have a: "appendCommand (initial_state 0 ()) [] ''uptime'' ?up = (True, [(''uptime'', ?up)])"
    using appendCommand_guarded
      [where s = "initial_state 0 ()" and mapCommands = "[]" and nm = "''uptime''" and pcmd = ?up]
    by (simp add: IsRPCRunning_def initial_state_def appendCommand_def)
  have b: "appendCommand (initial_state 0 ()) [(''uptime'', ?up)] ''uptime'' ?dup
      = (False, [(''uptime'', ?up)])"
    using appendCommand_guarded
      [where s = "initial_state 0 ()" and mapCommands = "[(''uptime'', ?up)]"
         and nm = "''uptime''" and pcmd = ?dup]
    by simp
  have c: "appendCommand (StartRPC (initial_state 0 ())) [] ''uptime'' ?up = (False, [])"
    using appendCommand_guarded
      [where s = "StartRPC (initial_state 0 ())" and mapCommands = "[]"
         and nm = "''uptime''" and pcmd = ?up]
    by (simp add: IsRPCRunning_def StartRPC_def)
  show ?thesis using a b c by simp
qed

subsection \<open>Deadline timers\<close>

lemma sint_times_1000:
  fixes n :: "64 word"
  assumes "- (2 ^ 63) \<le> sint n * 1000" "sint n * 1000 < 2 ^ 63"
  shows "sint (n * 1000) = sint n * 1000"
proof -
  have "sint (n * 1000) = signed_take_bit 63 (sint n * sint (1000 :: 64 word))"
    by (simp add: sint_word_ariths)
  also have "sint (1000 :: 64 word) = 1000" by simp
  finally show ?thesis using assms by (simp add: signed_take_bit_int_eq_self)
qed

text \<open>
  C9. Without a timer interface \<^verbatim>\<open>RPCRunLater\<close> throws \<open>RPC_INTERNAL_ERROR\<close>,
  \<open>No timer handler registered for RPC\<close>, and the timers are as before. With an
  interface installed, the timer map afterwards is the old one with the name bound to
  the timer that the interface's factory makes from the callback and the delay
  \<open>nSeconds * 1000\<close> (a timer stored under the name before is gone); the product is
  computed in 64 bits and is the exact product whenever that fits.
\<close>

theorem RPCRunLater_schedules:
  "(timerInterface ts = None \<longrightarrow>
      RPCRunLater nm func nSeconds ts
        = (Some (JSONRPCError RPC_INTERNAL_ERROR ''No timer handler registered for RPC''), ts))
   \<and> (timerInterface ts = Some iface \<longrightarrow>
      RPCRunLater nm func nSeconds ts
        = (None, ts\<lparr>deadlineTimers :=
                     (deadlineTimers ts)(nm \<mapsto> NewTimer iface func (nSeconds * 1000))\<rparr>))
   \<and> (- (2 ^ 63) \<le> sint nSeconds * 1000 \<and> sint nSeconds * 1000 < 2 ^ 63 \<longrightarrow>
      sint (nSeconds * 1000) = sint nSeconds * 1000)"
  by (simp add: RPCRunLater_def sint_times_1000)

theorem RPCRunLater_schedules_witness:
  "RPCRunLater ''lockwallet'' ''relock'' 60
       (\<lparr>timerInterface = None, deadlineTimers = Map.empty\<rparr>
          :: (string, string \<times> 64 word) timer_state)
     = (Some (JSONRPCError RPC_INTERNAL_ERROR ''No timer handler registered for RPC''),
        \<lparr>timerInterface = None, deadlineTimers = Map.empty\<rparr>)
   \<and> RPCRunLater ''lockwallet'' ''relock'' 60
       (RPCSetTimerInterfaceIfUnset \<lparr>Name = ''HTTP'', NewTimer = (\<lambda>f ms. (f, ms))\<rparr>
          \<lparr>timerInterface = None, deadlineTimers = Map.empty(''lockwallet'' \<mapsto> (''old'', 5))\<rparr>)
     = (None, \<lparr>timerInterface = Some \<lparr>Name = ''HTTP'', NewTimer = (\<lambda>f ms. (f, ms))\<rparr>,
               deadlineTimers = Map.empty(''lockwallet'' \<mapsto> (''relock'', 60000))\<rparr>)
   \<and> sint (60 * 1000 :: 64 word) = 60000"
proof -
  let ?i = "\<lparr>Name = ''HTTP'', NewTimer = (\<lambda>(f::string) (ms::64 word). (f, ms))\<rparr>"
  let ?t0 = "\<lparr>timerInterface = None, deadlineTimers = Map.empty\<rparr>
      :: (string, string \<times> 64 word) timer_state"
  let ?t1 = "RPCSetTimerInterfaceIfUnset ?i
      \<lparr>timerInterface = None, deadlineTimers = Map.empty(''lockwallet'' \<mapsto> (''old'', 5))\<rparr>"
  have a: "RPCRunLater ''lockwallet'' ''relock'' 60 ?t0
     = (Some (JSONRPCError RPC_INTERNAL_ERROR ''No timer handler registered for RPC''), ?t0)"
    using RPCRunLater_schedules [where ts = ?t0 and nm = "''lockwallet''" and func = "''relock''"
        and nSeconds = 60]
    by simp
  have b: "RPCRunLater ''lockwallet'' ''relock'' 60 ?t1
     = (None, \<lparr>timerInterface = Some ?i,
               deadlineTimers = Map.empty(''lockwallet'' \<mapsto> (''relock'', 60000))\<rparr>)"
    using RPCRunLater_schedules [where ts = ?t1 and nm = "''lockwallet''" and func = "''relock''"
        and nSeconds = 60 and iface = ?i]
    by (simp add: RPCSetTimerInterfaceIfUnset_def)
  have c: "sint (60 * 1000 :: 64 word) = 60000"
    using RPCRunLater_schedules [where nSeconds = "60 :: 64 word" and ts = ?t0]
    by simp
  show ?thesis using a b c by simp
qed

subsection \<open>Registration of dynamic commands\<close>

text \<open>
  C10. \<^verbatim>\<open>RPCServer::RegisterCommand\<close> with a null pointer leaves the dynamic registry as it
  is and raises nothing. With a command whose name is already registered the registry
  is unchanged as well, so the name keeps the descriptor registered first; with a new
  name the command is added under it.
\<close>

theorem RegisterCommand_null_and_duplicate:
  "RegisterCommand commands None = commands
   \<and> (commands (GetName c) = Some first \<longrightarrow> RegisterCommand commands (Some c) = commands)
   \<and> (commands (GetName c) = None \<longrightarrow>
        RegisterCommand commands (Some c) = commands(GetName c \<mapsto> c))"
  by (simp add: RegisterCommand_def)

theorem RegisterCommand_null_and_duplicate_witness:
  "RegisterCommand
     (RegisterCommand (Map.empty :: unit RPCCommandMap)
        (Some \<lparr>GetName = ''ping'', Execute = (\<lambda>s r. (Inr (VSTR ''first''), s))\<rparr>))
     (Some \<lparr>GetName = ''ping'', Execute = (\<lambda>s r. (Inr (VSTR ''second''), s))\<rparr>)
   = Map.empty(''ping'' \<mapsto> \<lparr>GetName = ''ping'', Execute = (\<lambda>s r. (Inr (VSTR ''first''), s))\<rparr>)"
proof -
  let ?c1 = "\<lparr>GetName = ''ping'', Execute = (\<lambda>(s :: unit rpc_state) (r :: JSONRPCRequest). (Inr (VSTR ''first'') :: exn + UniValue, s))\<rparr>"
  let ?c2 = "\<lparr>GetName = ''ping'', Execute = (\<lambda>(s :: unit rpc_state) (r :: JSONRPCRequest). (Inr (VSTR ''second'') :: exn + UniValue, s))\<rparr>"
  have a: "RegisterCommand Map.empty (Some ?c1) = Map.empty(''ping'' \<mapsto> ?c1)"
    using RegisterCommand_null_and_duplicate [where commands = Map.empty and c = ?c1]
    by simp
  have b: "RegisterCommand (Map.empty(''ping'' \<mapsto> ?c1)) (Some ?c2) = Map.empty(''ping'' \<mapsto> ?c1)"
    using RegisterCommand_null_and_duplicate
      [where commands = "Map.empty(''ping'' \<mapsto> ?c1)" and c = ?c2 and first = ?c1]
    by simp
  show ?thesis using a b by simp
qed


subsection \<open>The execution tracker\<close>

lemma fold_max_ge: "(a::nat) \<le> fold max xs a"
  by (induction xs arbitrary: a) (auto intro: order_trans [OF max.cobounded2])

lemma fold_max_mem: "x \<in> set xs \<Longrightarrow> (x::nat) \<le> fold max xs a"
proof (induction xs arbitrary: a)
  case Nil
  then show ?case by simp
next
  case (Cons y ys)
  show ?case
  proof (cases "x = y")
    case True
    have "x \<le> max y a" using True by simp
    also have "\<dots> \<le> fold max ys (max y a)" by (rule fold_max_ge)
    finally show ?thesis by simp
  next
    case False
    then have "x \<in> set ys" using Cons.prems by simp
    then show ?thesis using Cons.IH by simp
  qed
qed

lemma fresh_node_fresh: "fresh_node xs \<notin> fst ` set xs"
proof
  assume "fresh_node xs \<in> fst ` set xs"
  then have "fresh_node xs \<in> set (map fst xs)" by simp
  then have "fresh_node xs \<le> fold max (map fst xs) 0" by (rule fold_max_mem)
  then show False by (simp add: fresh_node_def)
qed

lemma filter_fresh_node:
  "filter (\<lambda>e. fst e \<noteq> fresh_node xs) xs = xs"
proof -
  have "\<forall>e \<in> set xs. fst e \<noteq> fresh_node xs"
    using fresh_node_fresh [of xs] by force
  then show ?thesis by (simp add: filter_id_conv)
qed

lemma tracked_eq:
  "tracked s m =
     s\<lparr>active_commands := active_commands s
          @ [(fresh_node (active_commands s), \<lparr>method_str = m, start = GetTimeMicros s\<rparr>)]\<rparr>"
  by (simp add: tracked_def RPCCommandExecution_ctor_def Let_def)

lemma ctor_tracked:
  "RPCCommandExecution_ctor m s = (fresh_node (active_commands s), tracked s m)"
  by (simp add: RPCCommandExecution_ctor_def tracked_def Let_def)

lemma dtor_tracked:
  "active_commands s2 = active_commands (tracked s m)
    \<Longrightarrow> active_commands (RPCCommandExecution_dtor (fresh_node (active_commands s)) s2)
        = active_commands s"
  by (simp add: RPCCommandExecution_dtor_def tracked_eq filter_fresh_node)

lemma snd_catch:
  "snd (case r of Inl (StdException what) \<Rightarrow> (Inl (JSONRPCError RPC_MISC_ERROR what), s3)
               | _ \<Rightarrow> (r, s3)) = s3"
  by (simp split: sum.splits exn.splits)

lemma fst_catch:
  "fst (case r of Inl (StdException what) \<Rightarrow> (Inl (JSONRPCError RPC_MISC_ERROR what), s3)
               | _ \<Rightarrow> (r, s3))
     = (case r of Inl (StdException what) \<Rightarrow> Inl (JSONRPCError RPC_MISC_ERROR what) | r' \<Rightarrow> r')"
  by (simp split: sum.splits exn.splits)

lemma execute_keeps_tracker:
  assumes "\<forall>p. CRPCTable_lookup tableRPC (strMethod request) = Some p \<longrightarrow> leaves_tracker (call p)"
  shows "active_commands (snd (execute tableRPC s request)) = active_commands s"
proof (cases "fRPCInWarmup s")
  case True
  then show ?thesis by (simp add: execute_def)
next
  case False
  show ?thesis
  proof (cases "CRPCTable_lookup tableRPC (strMethod request)")
    case None
    then show ?thesis using False by (simp add: execute_def)
  next
    case (Some pcmd)
    then have lt: "\<And>s r. active_commands (snd (call pcmd s r)) = active_commands s"
      using assms by (simp add: leaves_tracker_def)
    let ?s1 = "tracked s (strMethod request)"
    let ?inv = "if isObject (params request)
             then (case transformNamedArguments request (argNames (snd pcmd)) of
                     Inl e \<Rightarrow> (Inl e, ?s1)
                   | Inr transformed \<Rightarrow> call pcmd ?s1 transformed)
             else call pcmd ?s1 request"
    have inv: "active_commands (snd ?inv) = active_commands ?s1"
      by (simp add: lt split: sum.splits)
    have "snd (execute tableRPC s request)
        = RPCCommandExecution_dtor (fresh_node (active_commands s)) (snd ?inv)"
      unfolding execute_static [OF False Some] ctor_tracked Let_def
      by (simp only: case_prod_beta fst_conv snd_conv snd_catch)
    then show ?thesis using dtor_tracked [OF inv] by simp
  qed
qed

lemma execute_runs_tracked:
  assumes "\<not> fRPCInWarmup s"
    and "CRPCTable_lookup tableRPC (strMethod request) = Some pcmd"
    and "(if isObject (params request)
          then transformNamedArguments request (argNames (snd pcmd))
          else Inr request) = Inr req"
  shows "fst (execute tableRPC s request)
     = (case fst (call pcmd (tracked s (strMethod request)) req) of
          Inl (StdException what) \<Rightarrow> Inl (JSONRPCError RPC_MISC_ERROR what)
        | r \<Rightarrow> r)"
proof -
  let ?s1 = "tracked s (strMethod request)"
  have inv: "(if isObject (params request)
             then (case transformNamedArguments request (argNames (snd pcmd)) of
                     Inl e \<Rightarrow> (Inl e, ?s1)
                   | Inr transformed \<Rightarrow> call pcmd ?s1 transformed)
             else call pcmd ?s1 request) = call pcmd ?s1 req"
    using assms(3) by (auto split: if_splits)
  show ?thesis
    unfolding execute_static [OF assms(1,2)] ctor_tracked Let_def
    by (simp only: case_prod_beta fst_conv snd_conv fst_catch inv)
qed

subsection \<open>Command resolution\<close>

text \<open>
  C2. Outside warmup, a method name of the dynamic registry is resolved there: the
  result of the dispatch is the result of that command's own \<open>Execute\<close> on the request
  as it came (named arguments are not transformed), whatever the static table holds.
  A name the dynamic registry lacks goes to \<^verbatim>\<open>CRPCTable::execute\<close>: a name that neither
  registry has fails with \<open>RPC_METHOD_NOT_FOUND\<close>, and for a name that only the static
  table has, the command found there is called, in the state that the constructor of
  \<^verbatim>\<open>RPCCommandExecution\<close> leaves and on the request with its arguments made positional;
  the dispatch returns what that call returns (a \<^verbatim>\<open>std::exception\<close> as \<open>RPC_MISC_ERROR\<close>)
  and leaves the state of the call once the destructor has run.
\<close>

theorem dynamic_first_then_static:
  "\<not> fRPCInWarmup s \<Longrightarrow>
     (commands (strMethod request) = Some cmd \<longrightarrow>
        ExecuteCommand commands tableRPC s request = Execute cmd s request)
     \<and> (commands (strMethod request) = None \<longrightarrow>
        ExecuteCommand commands tableRPC s request = execute tableRPC s request)
     \<and> (commands (strMethod request) = None
          \<and> CRPCTable_lookup tableRPC (strMethod request) = None \<longrightarrow>
        ExecuteCommand commands tableRPC s request
          = (Inl (JSONRPCError RPC_METHOD_NOT_FOUND ''Method not found''), s))
     \<and> (commands (strMethod request) = None
          \<and> CRPCTable_lookup tableRPC (strMethod request) = Some pcmd
          \<and> (if isObject (params request)
              then transformNamedArguments request (argNames (snd pcmd))
              else Inr request) = Inr req \<longrightarrow>
        fst (ExecuteCommand commands tableRPC s request)
          = (case fst (call pcmd (snd (RPCCommandExecution_ctor (strMethod request) s)) req) of
               Inl (StdException what) \<Rightarrow> Inl (JSONRPCError RPC_MISC_ERROR what)
             | r \<Rightarrow> r)
        \<and> snd (ExecuteCommand commands tableRPC s request)
          = RPCCommandExecution_dtor (fst (RPCCommandExecution_ctor (strMethod request) s))
              (snd (call pcmd (snd (RPCCommandExecution_ctor (strMethod request) s)) req)))"
proof (intro conjI impI)
  assume w: "\<not> fRPCInWarmup s"
  {
    assume "commands (strMethod request) = Some cmd"
    then show "ExecuteCommand commands tableRPC s request = Execute cmd s request"
      using w by (simp add: ExecuteCommand_def)
  next
    assume "commands (strMethod request) = None"
    then show "ExecuteCommand commands tableRPC s request = execute tableRPC s request"
      using w by (simp add: ExecuteCommand_def)
  next
    assume "commands (strMethod request) = None
          \<and> CRPCTable_lookup tableRPC (strMethod request) = None"
    then show "ExecuteCommand commands tableRPC s request
          = (Inl (JSONRPCError RPC_METHOD_NOT_FOUND ''Method not found''), s)"
      using w by (simp add: ExecuteCommand_def execute_def)
  next
    assume h: "commands (strMethod request) = None
          \<and> CRPCTable_lookup tableRPC (strMethod request) = Some pcmd
          \<and> (if isObject (params request)
              then transformNamedArguments request (argNames (snd pcmd))
              else Inr request) = Inr req"
    let ?s1 = "snd (RPCCommandExecution_ctor (strMethod request) s)"
    let ?it = "fst (RPCCommandExecution_ctor (strMethod request) s)"
    have e: "ExecuteCommand commands tableRPC s request = execute tableRPC s request"
      using w h by (simp add: ExecuteCommand_def)
    have found: "CRPCTable_lookup tableRPC (strMethod request) = Some pcmd"
      using h by simp
    have inv: "(if isObject (params request)
             then (case transformNamedArguments request (argNames (snd pcmd)) of
                     Inl e \<Rightarrow> (Inl e, ?s1)
                   | Inr transformed \<Rightarrow> call pcmd ?s1 transformed)
             else call pcmd ?s1 request) = call pcmd ?s1 req"
      using h by (auto split: if_splits)
    have ex: "execute tableRPC s request
        = (case fst (call pcmd ?s1 req) of
             Inl (StdException what) \<Rightarrow>
               (Inl (JSONRPCError RPC_MISC_ERROR what),
                RPCCommandExecution_dtor ?it (snd (call pcmd ?s1 req)))
           | _ \<Rightarrow> (fst (call pcmd ?s1 req),
                   RPCCommandExecution_dtor ?it (snd (call pcmd ?s1 req))))"
      unfolding execute_static [OF w found] Let_def
      by (simp only: case_prod_beta inv)
    show "fst (ExecuteCommand commands tableRPC s request)
          = (case fst (call pcmd ?s1 req) of
               Inl (StdException what) \<Rightarrow> Inl (JSONRPCError RPC_MISC_ERROR what)
             | r \<Rightarrow> r)"
      unfolding e ex by (rule fst_catch)
    show "snd (ExecuteCommand commands tableRPC s request)
          = RPCCommandExecution_dtor ?it (snd (call pcmd ?s1 req))"
      unfolding e ex by (rule snd_catch)
  }
qed

theorem dynamic_first_then_static_witness:
  "ExecuteCommand
     (Map.empty(''echo'' \<mapsto> \<lparr>GetName = ''echo'', Execute = (\<lambda>s r. (Inr (params r), s))\<rparr>))
     [(''echo'', (0, \<lparr>category = ''util'', name = ''echo'',
                      actor = (\<lambda>s r. (Inr VNULL, s)), argNames = [''x'']\<rparr>))]
     ((initial_state 0 ())\<lparr>fRPCInWarmup := False\<rparr>)
     \<lparr>id_val = VNUM 1, strMethod = ''echo'', params = VOBJ [(''x'', VNUM 1)], fHelp = False\<rparr>
   = (Inr (VOBJ [(''x'', VNUM 1)]), (initial_state 0 ())\<lparr>fRPCInWarmup := False\<rparr>)
   \<and> ExecuteCommand
     (Map.empty(''echo'' \<mapsto> \<lparr>GetName = ''echo'', Execute = (\<lambda>s r. (Inr (params r), s))\<rparr>))
     [(''echo'', (0, \<lparr>category = ''util'', name = ''echo'',
                      actor = (\<lambda>s r. (Inr VNULL, s)), argNames = [''x'']\<rparr>))]
     ((initial_state 0 ())\<lparr>fRPCInWarmup := False\<rparr>)
     \<lparr>id_val = VNUM 2, strMethod = ''nosuch'', params = VARR [], fHelp = False\<rparr>
   = (Inl (JSONRPCError RPC_METHOD_NOT_FOUND ''Method not found''),
      (initial_state 0 ())\<lparr>fRPCInWarmup := False\<rparr>)
   \<and> ExecuteCommand
     (Map.empty(''echo'' \<mapsto> \<lparr>GetName = ''echo'', Execute = (\<lambda>s r. (Inr (params r), s))\<rparr>))
     [(''positional'', (1, \<lparr>category = ''util'', name = ''positional'',
                           actor = (\<lambda>s r. (Inr (params r), s)), argNames = [''a'', ''b'']\<rparr>)),
      (''uptime'', (3, \<lparr>category = ''control'', name = ''uptime'',
                       actor = uptime ''uptime\<newline>'' 7, argNames = []\<rparr>))]
     ((initial_state 0 ())\<lparr>fRPCInWarmup := False\<rparr>)
     \<lparr>id_val = VNUM 3, strMethod = ''uptime'', params = VARR [], fHelp = False\<rparr>
   = (Inr (VNUM 7), (initial_state 0 ())\<lparr>fRPCInWarmup := False\<rparr>)
   \<and> ExecuteCommand
     (Map.empty(''echo'' \<mapsto> \<lparr>GetName = ''echo'', Execute = (\<lambda>s r. (Inr (params r), s))\<rparr>))
     [(''positional'', (1, \<lparr>category = ''util'', name = ''positional'',
                           actor = (\<lambda>s r. (Inr (params r), s)), argNames = [''a'', ''b'']\<rparr>)),
      (''uptime'', (3, \<lparr>category = ''control'', name = ''uptime'',
                       actor = uptime ''uptime\<newline>'' 7, argNames = []\<rparr>))]
     ((initial_state 0 ())\<lparr>fRPCInWarmup := False\<rparr>)
     \<lparr>id_val = VNUM 4, strMethod = ''positional'', params = VOBJ [(''b'', VNUM 2)], fHelp = False\<rparr>
   = (Inr (VARR [VNULL, VNUM 2]), (initial_state 0 ())\<lparr>fRPCInWarmup := False\<rparr>)"
proof -
  let ?s = "(initial_state 0 ())\<lparr>fRPCInWarmup := False\<rparr>"
  let ?dyn = "Map.empty(''echo'' \<mapsto> \<lparr>GetName = ''echo'',
      Execute = (\<lambda>(s :: unit rpc_state) (r :: JSONRPCRequest). (Inr (params r) :: exn + UniValue, s))\<rparr>)"
  let ?echo = "\<lparr>GetName = ''echo'',
      Execute = (\<lambda>(s :: unit rpc_state) (r :: JSONRPCRequest). (Inr (params r) :: exn + UniValue, s))\<rparr>"
  let ?t1 = "[(''echo'', (0 :: nat, \<lparr>category = ''util'', name = ''echo'',
      actor = (\<lambda>(s :: unit rpc_state) (r :: JSONRPCRequest). (Inr VNULL :: exn + UniValue, s)),
      argNames = [''x'']\<rparr>))]"
  let ?positional = "(1 :: nat, \<lparr>category = ''util'', name = ''positional'',
      actor = (\<lambda>(s :: unit rpc_state) (r :: JSONRPCRequest). (Inr (params r) :: exn + UniValue, s)),
      argNames = [''a'', ''b'']\<rparr>)"
  let ?uptime = "(3 :: nat, \<lparr>category = ''control'', name = ''uptime'',
      actor = (uptime ''uptime\<newline>'' 7 :: unit handler), argNames = []\<rparr>)"
  let ?t2 = "[(''positional'', ?positional), (''uptime'', ?uptime)]"
  let ?r1 = "\<lparr>id_val = VNUM 1, strMethod = ''echo'', params = VOBJ [(''x'', VNUM 1)], fHelp = False\<rparr>"
  let ?r2 = "\<lparr>id_val = VNUM 2, strMethod = ''nosuch'', params = VARR [], fHelp = False\<rparr>"
  let ?r3 = "\<lparr>id_val = VNUM 3, strMethod = ''uptime'', params = VARR [], fHelp = False\<rparr>"
  let ?r4 = "\<lparr>id_val = VNUM 4, strMethod = ''positional'', params = VOBJ [(''b'', VNUM 2)], fHelp = False\<rparr>"
  have w: "\<not> fRPCInWarmup ?s"
    by simp
  have dyn: "ExecuteCommand ?dyn ?t1 ?s ?r1 = (Inr (VOBJ [(''x'', VNUM 1)]), ?s)"
    using dynamic_first_then_static
      [OF w, where request = ?r1 and commands = ?dyn and cmd = ?echo and tableRPC = ?t1]
    by simp
  have none: "ExecuteCommand ?dyn ?t1 ?s ?r2
      = (Inl (JSONRPCError RPC_METHOD_NOT_FOUND ''Method not found''), ?s)"
    using dynamic_first_then_static
      [OF w, where request = ?r2 and commands = ?dyn and tableRPC = ?t1]
    by (auto simp: CRPCTable_lookup_def)
  have restored: "\<And>m. RPCCommandExecution_dtor (fst (RPCCommandExecution_ctor m ?s))
      (snd (RPCCommandExecution_ctor m ?s)) = ?s"
    by (simp add: RPCCommandExecution_ctor_def RPCCommandExecution_dtor_def fresh_node_def
          initial_state_def Let_def)
  have static: "ExecuteCommand ?dyn ?t2 ?s ?r3 = (Inr (VNUM 7), ?s)"
  proof -
    have pre: "?dyn (strMethod ?r3) = None
        \<and> CRPCTable_lookup ?t2 (strMethod ?r3) = Some ?uptime
        \<and> (if isObject (params ?r3)
            then transformNamedArguments ?r3 (argNames (snd ?uptime))
            else Inr ?r3) = Inr ?r3"
      by (simp add: CRPCTable_lookup_def)
    note hit = dynamic_first_then_static
      [OF w, where request = ?r3 and commands = ?dyn and tableRPC = ?t2 and pcmd = ?uptime
         and req = ?r3, THEN conjunct2, THEN conjunct2, THEN conjunct2, THEN mp, OF pre]
    have "fst (ExecuteCommand ?dyn ?t2 ?s ?r3) = Inr (VNUM 7)"
      using hit [THEN conjunct1] by (simp add: call_def uptime_def)
    moreover have "snd (ExecuteCommand ?dyn ?t2 ?s ?r3) = ?s"
      using hit [THEN conjunct2] by (simp add: call_def uptime_def restored)
    ultimately show ?thesis by (simp add: prod_eq_iff)
  qed
  have named: "ExecuteCommand ?dyn ?t2 ?s ?r4 = (Inr (VARR [VNULL, VNUM 2]), ?s)"
  proof -
    have pre: "?dyn (strMethod ?r4) = None
        \<and> CRPCTable_lookup ?t2 (strMethod ?r4) = Some ?positional
        \<and> (if isObject (params ?r4)
            then transformNamedArguments ?r4 (argNames (snd ?positional))
            else Inr ?r4) = Inr (?r4\<lparr>params := VARR [VNULL, VNUM 2]\<rparr>)"
      by (simp add: CRPCTable_lookup_def transformNamedArguments_def)
    note hit = dynamic_first_then_static
      [OF w, where request = ?r4 and commands = ?dyn and tableRPC = ?t2 and pcmd = ?positional
         and req = "?r4\<lparr>params := VARR [VNULL, VNUM 2]\<rparr>",
         THEN conjunct2, THEN conjunct2, THEN conjunct2, THEN mp, OF pre]
    have "fst (ExecuteCommand ?dyn ?t2 ?s ?r4) = Inr (VARR [VNULL, VNUM 2])"
      using hit [THEN conjunct1] by (simp add: call_def)
    moreover have "snd (ExecuteCommand ?dyn ?t2 ?s ?r4) = ?s"
      using hit [THEN conjunct2] by (simp add: call_def restored)
    ultimately show ?thesis by (simp add: prod_eq_iff)
  qed
  show ?thesis
    using dyn none static named by (intro conjI)
qed

subsection \<open>The scope of a tracker entry\<close>

text \<open>
  C6, as amended. A request that \<^verbatim>\<open>CRPCTable::execute\<close> resolves to a static command gets
  a tracker entry \<open>{method, start}\<close> at the end of the list before its arguments are
  transformed and its handler is invoked: the handler runs in the state \<open>tracked\<close>. A
  request resolved to a dynamic command runs in the state as it is, with no entry of its
  own. Provided the handler leaves the tracker as it found it, the list after the
  dispatch is the list before it, whatever the outcome: a result, a JSON error object,
  any other exception, or a rejection before any handler runs.
\<close>

theorem tracker_entry_scoped:
  assumes "\<forall>c. commands (strMethod request) = Some c \<longrightarrow> leaves_tracker (Execute c)"
    and "\<forall>p. CRPCTable_lookup tableRPC (strMethod request) = Some p \<longrightarrow> leaves_tracker (call p)"
  shows "active_commands (snd (ExecuteCommand commands tableRPC s request)) = active_commands s
     \<and> (\<not> fRPCInWarmup s \<and> commands (strMethod request) = None
          \<and> CRPCTable_lookup tableRPC (strMethod request) = Some pcmd
          \<and> (if isObject (params request)
              then transformNamedArguments request (argNames (snd pcmd))
              else Inr request) = Inr req \<longrightarrow>
        fst (ExecuteCommand commands tableRPC s request)
          = (case fst (call pcmd (tracked s (strMethod request)) req) of
               Inl (StdException what) \<Rightarrow> Inl (JSONRPCError RPC_MISC_ERROR what)
             | r \<Rightarrow> r)
        \<and> active_commands (tracked s (strMethod request))
          = active_commands s
            @ [(fresh_node (active_commands s),
                \<lparr>method_str = strMethod request, start = GetTimeMicros s\<rparr>)])
     \<and> (\<not> fRPCInWarmup s \<and> commands (strMethod request) = Some cmd \<longrightarrow>
        ExecuteCommand commands tableRPC s request = Execute cmd s request)"
proof (intro conjI impI)
  show "active_commands (snd (ExecuteCommand commands tableRPC s request)) = active_commands s"
  proof (cases "fRPCInWarmup s")
    case True
    then show ?thesis by (simp add: ExecuteCommand_def)
  next
    case False
    show ?thesis
    proof (cases "commands (strMethod request)")
      case None
      then show ?thesis
        using False execute_keeps_tracker [OF assms(2)] by (simp add: ExecuteCommand_def)
    next
      case (Some c)
      then have "leaves_tracker (Execute c)" using assms(1) by simp
      then show ?thesis using False Some by (simp add: ExecuteCommand_def leaves_tracker_def)
    qed
  qed
next
  assume h: "\<not> fRPCInWarmup s \<and> commands (strMethod request) = None
          \<and> CRPCTable_lookup tableRPC (strMethod request) = Some pcmd
          \<and> (if isObject (params request)
              then transformNamedArguments request (argNames (snd pcmd))
              else Inr request) = Inr req"
  then have "ExecuteCommand commands tableRPC s request = execute tableRPC s request"
    by (simp add: ExecuteCommand_def)
  then show "fst (ExecuteCommand commands tableRPC s request)
          = (case fst (call pcmd (tracked s (strMethod request)) req) of
               Inl (StdException what) \<Rightarrow> Inl (JSONRPCError RPC_MISC_ERROR what)
             | r \<Rightarrow> r)"
    using h execute_runs_tracked [of s tableRPC request pcmd req] by simp
  show "active_commands (tracked s (strMethod request))
          = active_commands s
            @ [(fresh_node (active_commands s),
                \<lparr>method_str = strMethod request, start = GetTimeMicros s\<rparr>)]"
    by (simp add: tracked_eq)
next
  assume "\<not> fRPCInWarmup s \<and> commands (strMethod request) = Some cmd"
  then show "ExecuteCommand commands tableRPC s request = Execute cmd s request"
    by (simp add: ExecuteCommand_def)
qed

lemma leaves_tracker_getrpcinfo: "leaves_tracker (getrpcinfo usage)"
  by (simp add: leaves_tracker_def getrpcinfo_def)

theorem tracker_entry_scoped_witness:
  "fst (ExecuteCommand Map.empty
      [(''getrpcinfo'', (0, \<lparr>category = ''control'', name = ''getrpcinfo'',
                             actor = getrpcinfo ''getrpcinfo'', argNames = []\<rparr>))]
      ((initial_state 5 ())\<lparr>fRPCInWarmup := False\<rparr>)
      \<lparr>id_val = VNUM 1, strMethod = ''getrpcinfo'', params = VARR [], fHelp = False\<rparr>)
    = Inr (VOBJ [(''active_commands'',
                  VARR [VOBJ [(''method'', VSTR ''getrpcinfo''), (''duration'', VNUM 0)]])])
   \<and> active_commands (snd (ExecuteCommand Map.empty
      [(''getrpcinfo'', (0, \<lparr>category = ''control'', name = ''getrpcinfo'',
                             actor = getrpcinfo ''getrpcinfo'', argNames = []\<rparr>))]
      ((initial_state 5 ())\<lparr>fRPCInWarmup := False\<rparr>)
      \<lparr>id_val = VNUM 1, strMethod = ''getrpcinfo'', params = VARR [], fHelp = False\<rparr>))
    = []
   \<and> ExecuteCommand
      (Map.empty(''rpcinfo2'' \<mapsto> \<lparr>GetName = ''rpcinfo2'', Execute = getrpcinfo ''rpcinfo2''\<rparr>))
      [(''getrpcinfo'', (0, \<lparr>category = ''control'', name = ''getrpcinfo'',
                             actor = getrpcinfo ''getrpcinfo'', argNames = []\<rparr>))]
      ((initial_state 5 ())\<lparr>fRPCInWarmup := False\<rparr>)
      \<lparr>id_val = VNUM 2, strMethod = ''rpcinfo2'', params = VARR [], fHelp = False\<rparr>
    = (Inr (VOBJ [(''active_commands'', VARR [])]),
       (initial_state 5 ())\<lparr>fRPCInWarmup := False\<rparr>)"
proof -
  let ?p = "(0, \<lparr>category = ''control'', name = ''getrpcinfo'',
                  actor = getrpcinfo ''getrpcinfo'', argNames = []\<rparr>)"
  let ?d = "\<lparr>GetName = ''rpcinfo2'', Execute = getrpcinfo ''rpcinfo2''\<rparr>"
  let ?s = "(initial_state 5 ())\<lparr>fRPCInWarmup := False\<rparr>"
  let ?r = "\<lparr>id_val = VNUM 1, strMethod = ''getrpcinfo'', params = VARR [], fHelp = False\<rparr>"
  let ?r2 = "\<lparr>id_val = VNUM 2, strMethod = ''rpcinfo2'', params = VARR [], fHelp = False\<rparr>"
  have d: "\<forall>c. (Map.empty :: unit RPCCommandMap) (strMethod ?r) = Some c \<longrightarrow> leaves_tracker (Execute c)"
    by simp
  have t: "\<forall>p. CRPCTable_lookup [(''getrpcinfo'', ?p)] (strMethod ?r) = Some p \<longrightarrow> leaves_tracker (call p)"
    using leaves_tracker_getrpcinfo [of "''getrpcinfo''"]
    by (simp add: CRPCTable_lookup_def leaves_tracker_def call_def)
  have d2: "\<forall>c. (Map.empty(''rpcinfo2'' \<mapsto> ?d)) (strMethod ?r2) = Some c \<longrightarrow> leaves_tracker (Execute c)"
    using leaves_tracker_getrpcinfo [of "''rpcinfo2''"] by simp
  have t2: "\<forall>p. CRPCTable_lookup [(''getrpcinfo'', ?p)] (strMethod ?r2) = Some p \<longrightarrow> leaves_tracker (call p)"
    by (simp add: CRPCTable_lookup_def)
  have static: "fst (ExecuteCommand Map.empty [(''getrpcinfo'', ?p)] ?s ?r)
      = Inr (VOBJ [(''active_commands'',
                  VARR [VOBJ [(''method'', VSTR ''getrpcinfo''), (''duration'', VNUM 0)]])])
    \<and> active_commands (snd (ExecuteCommand Map.empty [(''getrpcinfo'', ?p)] ?s ?r)) = []"
    using tracker_entry_scoped
      [where commands = Map.empty and tableRPC = "[(''getrpcinfo'', ?p)]" and request = ?r
         and s = ?s and pcmd = ?p and req = ?r, OF d t]
    by (simp add: CRPCTable_lookup_def call_def tracked_eq getrpcinfo_def GetTimeMicros_def
          initial_state_def)
  have dynamic: "ExecuteCommand (Map.empty(''rpcinfo2'' \<mapsto> ?d)) [(''getrpcinfo'', ?p)] ?s ?r2
      = (Inr (VOBJ [(''active_commands'', VARR [])]), ?s)"
    using tracker_entry_scoped
      [where commands = "Map.empty(''rpcinfo2'' \<mapsto> ?d)" and tableRPC = "[(''getrpcinfo'', ?p)]"
         and request = ?r2 and s = ?s and cmd = ?d, OF d2 t2]
    by (simp add: getrpcinfo_def initial_state_def)
  show ?thesis using static dynamic by simp
qed

text \<open>
  The claim as stated fails for a dynamic command: dispatched through the dynamic
  registry, the file's own \<^verbatim>\<open>getrpcinfo\<close> reports no active command, where the same handler
  in the static table reports its own entry.
\<close>

theorem dynamic_dispatch_untracked:
  "fst (ExecuteCommand
      (Map.empty(''getrpcinfo'' \<mapsto>
         \<lparr>GetName = ''getrpcinfo'', Execute = getrpcinfo ''getrpcinfo''\<rparr>))
      []
      ((initial_state 5 ())\<lparr>fRPCInWarmup := False\<rparr>)
      \<lparr>id_val = VNUM 1, strMethod = ''getrpcinfo'', params = VARR [], fHelp = False\<rparr>)
    = Inr (VOBJ [(''active_commands'', VARR [])])"
  by (simp add: ExecuteCommand_def getrpcinfo_def initial_state_def)


subsection \<open>Batches\<close>

lemma exec_each_length:
  "length (fst (exec_each parse commands tableRPC s jreq reqs)) = length reqs"
  by (induction reqs arbitrary: s) (simp_all add: case_prod_beta Let_def)

text \<open>The reply at a position is that of the request there, run after the earlier ones.\<close>

lemma exec_each_nth:
  "i < length reqs \<Longrightarrow>
     fst (exec_each parse commands tableRPC s jreq reqs) ! i
       = fst (JSONRPCExecOne parse commands tableRPC
                (snd (exec_each parse commands tableRPC s jreq (take i reqs))) jreq (reqs ! i))"
proof (induction reqs arbitrary: s i)
  case Nil
  then show ?case by simp
next
  case (Cons r rs)
  show ?case
  proof (cases i)
    case 0
    then show ?thesis by (simp add: case_prod_beta Let_def)
  next
    case (Suc j)
    then have "j < length rs" using Cons.prems by simp
    then show ?thesis using Suc Cons.IH by (simp add: case_prod_beta Let_def)
  qed
qed

lemma exec_each_state_kept:
  "\<forall>req \<in> set reqs. snd (JSONRPCExecOne parse commands tableRPC s jreq req) = s \<Longrightarrow>
     exec_each parse commands tableRPC s jreq reqs
       = (map (\<lambda>req. fst (JSONRPCExecOne parse commands tableRPC s jreq req)) reqs, s)"
  by (induction reqs) (simp_all add: case_prod_beta Let_def)

text \<open>
  C5. \<^verbatim>\<open>JSONRPCExecBatch\<close> on an array of requests returns the serialised array of replies
  followed by a newline. The array has one reply for each request, in the order of the
  requests, and the reply at a position is what \<^verbatim>\<open>JSONRPCExecOne\<close> gives for the request
  there, started from the same \<open>jreq\<close>, in the state the earlier requests have left:
  where the requests leave the state alone, the batch is the list of the replies of the
  requests each run alone. No failure ends the batch: a request whose parse throws a
  \<^verbatim>\<open>std::exception\<close> gets an \<open>RPC_PARSE_ERROR\<close> envelope with its text (a JSON error object
  thrown there is the error of the envelope as it is) and leaves the state unchanged,
  and a request whose execution fails gets an envelope with an error and a null result.
\<close>

theorem JSONRPCExecBatch_replies:
  "(\<exists>ret s1.
      JSONRPCExecBatch parse write_arr commands tableRPC s jreq (VARR reqs)
        = (write_arr ret @ ''\<newline>'', s1)
      \<and> length ret = length reqs
      \<and> (\<forall>i < length reqs.
            ret ! i = fst (JSONRPCExecOne parse commands tableRPC
                             (snd (exec_each parse commands tableRPC s jreq (take i reqs)))
                             jreq (reqs ! i))))
   \<and> ((\<forall>req \<in> set reqs. snd (JSONRPCExecOne parse commands tableRPC s jreq req) = s) \<longrightarrow>
        JSONRPCExecBatch parse write_arr commands tableRPC s jreq (VARR reqs)
          = (write_arr (map (\<lambda>req. fst (JSONRPCExecOne parse commands tableRPC s jreq req)) reqs)
               @ ''\<newline>'', s))
   \<and> (snd (parse req jreq) = Some (StdException msg) \<longrightarrow>
        JSONRPCExecOne parse commands tableRPC s jreq req
          = (\<lparr>reply_result = VNULL, reply_error = Some (RPC_PARSE_ERROR, msg),
              reply_id = id_val (fst (parse req jreq))\<rparr>, s))
   \<and> (snd (parse req jreq) = Some (JSONRPCError c m) \<longrightarrow>
        JSONRPCExecOne parse commands tableRPC s jreq req
          = (\<lparr>reply_result = VNULL, reply_error = Some (c, m),
              reply_id = id_val (fst (parse req jreq))\<rparr>, s))
   \<and> (snd (parse req jreq) = None
        \<and> fst (ExecuteCommand commands tableRPC s (fst (parse req jreq))) = Inl e \<longrightarrow>
        reply_result (fst (JSONRPCExecOne parse commands tableRPC s jreq req)) = VNULL
        \<and> reply_error (fst (JSONRPCExecOne parse commands tableRPC s jreq req))
            = Some (case e of JSONRPCError c m \<Rightarrow> (c, m) | StdException w \<Rightarrow> (RPC_PARSE_ERROR, w)))
   \<and> (snd (parse req jreq) = None
        \<and> fst (ExecuteCommand commands tableRPC s (fst (parse req jreq))) = Inr v \<longrightarrow>
        fst (JSONRPCExecOne parse commands tableRPC s jreq req)
          = \<lparr>reply_result = v, reply_error = None, reply_id = id_val (fst (parse req jreq))\<rparr>)"
proof (intro conjI impI)
  let ?run = "exec_each parse commands tableRPC s jreq reqs"
  have "JSONRPCExecBatch parse write_arr commands tableRPC s jreq (VARR reqs)
        = (write_arr (fst ?run) @ ''\<newline>'', snd ?run)"
    by (simp add: JSONRPCExecBatch_def case_prod_beta)
  moreover have "length (fst ?run) = length reqs"
    by (rule exec_each_length)
  moreover have "\<forall>i < length reqs.
            fst ?run ! i = fst (JSONRPCExecOne parse commands tableRPC
                             (snd (exec_each parse commands tableRPC s jreq (take i reqs)))
                             jreq (reqs ! i))"
    by (simp add: exec_each_nth)
  ultimately show "\<exists>ret s1.
      JSONRPCExecBatch parse write_arr commands tableRPC s jreq (VARR reqs)
        = (write_arr ret @ ''\<newline>'', s1)
      \<and> length ret = length reqs
      \<and> (\<forall>i < length reqs.
            ret ! i = fst (JSONRPCExecOne parse commands tableRPC
                             (snd (exec_each parse commands tableRPC s jreq (take i reqs)))
                             jreq (reqs ! i)))"
    by blast
next
  assume "\<forall>req \<in> set reqs. snd (JSONRPCExecOne parse commands tableRPC s jreq req) = s"
  then show "JSONRPCExecBatch parse write_arr commands tableRPC s jreq (VARR reqs)
          = (write_arr (map (\<lambda>req. fst (JSONRPCExecOne parse commands tableRPC s jreq req)) reqs)
               @ ''\<newline>'', s)"
    by (simp add: JSONRPCExecBatch_def exec_each_state_kept)
next
  assume "snd (parse req jreq) = Some (StdException msg)"
  then show "JSONRPCExecOne parse commands tableRPC s jreq req
          = (\<lparr>reply_result = VNULL, reply_error = Some (RPC_PARSE_ERROR, msg),
              reply_id = id_val (fst (parse req jreq))\<rparr>, s)"
    by (simp add: JSONRPCExecOne_def JSONRPCReplyObj_def case_prod_beta)
next
  assume "snd (parse req jreq) = Some (JSONRPCError c m)"
  then show "JSONRPCExecOne parse commands tableRPC s jreq req
          = (\<lparr>reply_result = VNULL, reply_error = Some (c, m),
              reply_id = id_val (fst (parse req jreq))\<rparr>, s)"
    by (simp add: JSONRPCExecOne_def JSONRPCReplyObj_def case_prod_beta)
next
  assume h: "snd (parse req jreq) = None
        \<and> fst (ExecuteCommand commands tableRPC s (fst (parse req jreq))) = Inl e"
  then show "reply_result (fst (JSONRPCExecOne parse commands tableRPC s jreq req)) = VNULL"
    by (cases e) (simp_all add: JSONRPCExecOne_def JSONRPCReplyObj_def case_prod_beta)
  from h show "reply_error (fst (JSONRPCExecOne parse commands tableRPC s jreq req))
            = Some (case e of JSONRPCError c m \<Rightarrow> (c, m) | StdException w \<Rightarrow> (RPC_PARSE_ERROR, w))"
    by (cases e) (simp_all add: JSONRPCExecOne_def JSONRPCReplyObj_def case_prod_beta)
next
  assume "snd (parse req jreq) = None
        \<and> fst (ExecuteCommand commands tableRPC s (fst (parse req jreq))) = Inr v"
  then show "fst (JSONRPCExecOne parse commands tableRPC s jreq req)
          = \<lparr>reply_result = v, reply_error = None, reply_id = id_val (fst (parse req jreq))\<rparr>"
    by (simp add: JSONRPCExecOne_def JSONRPCReplyObj_def case_prod_beta)
qed

theorem JSONRPCExecBatch_replies_witness:
  "JSONRPCExecBatch parse_wire
     (\<lambda>ret. concat (map (\<lambda>r. case reply_error r of None \<Rightarrow> ''ok;'' | Some (c, m) \<Rightarrow> m @ '';'') ret))
     Map.empty
     [(''getrpcinfo'', (0, \<lparr>category = ''control'', name = ''getrpcinfo'',
                            actor = getrpcinfo ''getrpcinfo'', argNames = []\<rparr>))]
     ((initial_state 5 ())\<lparr>fRPCInWarmup := False\<rparr>)
     \<lparr>id_val = VNULL, strMethod = [], params = VNULL, fHelp = False\<rparr>
     (VARR [VOBJ [(''method'', VSTR ''getrpcinfo''), (''params'', VARR []), (''id'', VNUM 1)],
            VOBJ [(''method'', VSTR ''nosuch''), (''params'', VARR []), (''id'', VNUM 2)],
            VSTR ''garbage'',
            VOBJ [(''method'', VSTR ''getrpcinfo''), (''params'', VARR []), (''id'', VNUM 4)]])
   = (''ok;Method not found;Invalid Request object;ok;\<newline>'',
      (initial_state 5 ())\<lparr>fRPCInWarmup := False\<rparr>)"
proof -
  let ?w = "\<lambda>ret. concat (map (\<lambda>r. case reply_error r of None \<Rightarrow> ''ok;'' | Some (c, m) \<Rightarrow> m @ '';'') ret)"
  let ?t = "[(''getrpcinfo'', (0 :: nat, \<lparr>category = ''control'', name = ''getrpcinfo'',
                            actor = getrpcinfo ''getrpcinfo'', argNames = []\<rparr>))]"
  let ?s = "(initial_state 5 ())\<lparr>fRPCInWarmup := False\<rparr>"
  let ?j = "\<lparr>id_val = VNULL, strMethod = [], params = VNULL, fHelp = False\<rparr>"
  let ?r1 = "VOBJ [(''method'', VSTR ''getrpcinfo''), (''params'', VARR []), (''id'', VNUM 1)]"
  let ?r2 = "VOBJ [(''method'', VSTR ''nosuch''), (''params'', VARR []), (''id'', VNUM 2)]"
  let ?r3 = "VSTR ''garbage''"
  let ?r4 = "VOBJ [(''method'', VSTR ''getrpcinfo''), (''params'', VARR []), (''id'', VNUM 4)]"
  note inst = JSONRPCExecBatch_replies
      [where parse = parse_wire and write_arr = ?w and commands = Map.empty and tableRPC = ?t
         and s = ?s and jreq = ?j and reqs = "[?r1, ?r2, ?r3, ?r4]"]
  have e1: "JSONRPCExecOne parse_wire Map.empty ?t ?s ?j ?r1
      = (\<lparr>reply_result = VOBJ [(''active_commands'',
             VARR [VOBJ [(''method'', VSTR ''getrpcinfo''), (''duration'', VNUM 0)]])],
          reply_error = None, reply_id = VNUM 1\<rparr>, ?s)"
    by (simp add: JSONRPCExecOne_def JSONRPCReplyObj_def parse_wire_def getrpcinfo_def dispatch_defs)
  have e2: "reply_error (fst (JSONRPCExecOne parse_wire Map.empty ?t ?s ?j ?r2))
      = Some (RPC_METHOD_NOT_FOUND, ''Method not found'')"
    using inst [where req = ?r2
        and e = "JSONRPCError RPC_METHOD_NOT_FOUND ''Method not found''"]
    by (simp add: parse_wire_def dispatch_defs)
  have s2: "snd (JSONRPCExecOne parse_wire Map.empty ?t ?s ?j ?r2) = ?s"
    by (simp add: JSONRPCExecOne_def parse_wire_def dispatch_defs)
  have e3: "JSONRPCExecOne parse_wire Map.empty ?t ?s ?j ?r3
      = (\<lparr>reply_result = VNULL, reply_error = Some (RPC_PARSE_ERROR, ''Invalid Request object''),
          reply_id = VNULL\<rparr>, ?s)"
    using inst [where req = ?r3 and msg = "''Invalid Request object''"]
    by (simp add: parse_wire_def)
  have e4: "JSONRPCExecOne parse_wire Map.empty ?t ?s ?j ?r4
      = (\<lparr>reply_result = VOBJ [(''active_commands'',
             VARR [VOBJ [(''method'', VSTR ''getrpcinfo''), (''duration'', VNUM 0)]])],
          reply_error = None, reply_id = VNUM 4\<rparr>, ?s)"
    by (simp add: JSONRPCExecOne_def JSONRPCReplyObj_def parse_wire_def getrpcinfo_def dispatch_defs)
  have kept: "\<forall>req \<in> set [?r1, ?r2, ?r3, ?r4].
      snd (JSONRPCExecOne parse_wire Map.empty ?t ?s ?j req) = ?s"
    using e1 s2 e3 e4 by simp
  have "JSONRPCExecBatch parse_wire ?w Map.empty ?t ?s ?j (VARR [?r1, ?r2, ?r3, ?r4])
      = (?w (map (\<lambda>req. fst (JSONRPCExecOne parse_wire Map.empty ?t ?s ?j req)) [?r1, ?r2, ?r3, ?r4])
           @ ''\<newline>'', ?s)"
    using inst kept by blast
  then show ?thesis
    by (simp add: e1 e2 e3 e4)
qed

subsection \<open>Help\<close>

lemma join_blocks_Cons:
  "join_blocks (b # bs) = b @ concat (map (\<lambda>b'. ''\<newline>'' @ b') bs)"
  by (induction bs arbitrary: b) simp_all

text \<open>In a sorted list the elements after the leading run of \<open>c\<close> are those other than \<open>c\<close>.\<close>

lemma remdups_adj_sorted_Cons:
  "sorted (c # ys) \<Longrightarrow> remdups_adj (c # ys) = c # remdups_adj (filter (\<lambda>x. x \<noteq> c) ys)"
proof (induction ys)
  case Nil
  then show ?case by simp
next
  case (Cons y ys)
  show ?case
  proof (cases "y = c")
    case True
    then show ?thesis using Cons by simp
  next
    case False
    have "\<forall>x \<in> set (y # ys). x \<noteq> c"
      using Cons.prems False by auto
    then have "filter (\<lambda>x. x \<noteq> c) (y # ys) = y # ys"
      by (simp add: filter_id_conv)
    then show ?thesis using False by simp
  qed
qed

lemma lines_of_absent: "c \<notin> fst ` set items \<Longrightarrow> lines_of c items = []"
proof -
  assume "c \<notin> fst ` set items"
  then have "filter (\<lambda>item. fst item = c) items = []"
    by (auto simp: filter_empty_conv)
  then show ?thesis by (simp add: lines_of_def)
qed

lemma category_block_other:
  "c \<noteq> fst item \<Longrightarrow> category_block (item # items) c = category_block items c"
  by (simp add: category_block_def lines_of_def)

lemma listing_after:
  assumes "sorted (map fst items)" and "\<forall>c \<in> fst ` set items. cat \<le> c" and "cat \<noteq> []"
  shows "listing cat items
     = lines_of cat items
       @ concat (map (\<lambda>c. ''\<newline>'' @ category_block items c)
                   (remdups_adj (filter (\<lambda>c. c \<noteq> cat) (map fst items))))"
  using assms
proof (induction items arbitrary: cat)
  case Nil
  then show ?case by (simp add: lines_of_def)
next
  case (Cons item items)
  have srt: "sorted (map fst items)" using Cons.prems(1) by simp
  have low: "\<forall>c \<in> fst ` set items. fst item \<le> c" using Cons.prems(1) by auto
  show ?case
  proof (cases "fst item = cat")
    case True
    have ih: "listing cat items
        = lines_of cat items
          @ concat (map (\<lambda>c. ''\<newline>'' @ category_block items c)
                      (remdups_adj (filter (\<lambda>c. c \<noteq> cat) (map fst items))))"
      using Cons.IH [OF srt _ Cons.prems(3)] Cons.prems(2) by simp
    have same: "map (\<lambda>c. ''\<newline>'' @ category_block (item # items) c)
                  (remdups_adj (filter (\<lambda>c. c \<noteq> cat) (map fst items)))
              = map (\<lambda>c. ''\<newline>'' @ category_block items c)
                  (remdups_adj (filter (\<lambda>c. c \<noteq> cat) (map fst items)))"
      using True by (intro map_cong refl) (auto simp: category_block_other)
    have lhs: "listing cat (item # items) = snd item @ ''\<newline>'' @ listing cat items"
      using True by simp
    have l: "lines_of cat (item # items) = snd item @ ''\<newline>'' @ lines_of cat items"
      using True by (simp add: lines_of_def)
    have f: "filter (\<lambda>c. c \<noteq> cat) (map fst (item # items))
        = filter (\<lambda>c. c \<noteq> cat) (map fst items)"
      using True by simp
    show ?thesis
      unfolding lhs l f same ih by simp
  next
    case False
    have ne: "fst item \<noteq> []"
      using Cons.prems(2,3) False by (metis Nil_le_Cons insertI1 image_insert list.set(2) dual_order.antisym list.exhaust)
    have ih: "listing (fst item) items
        = lines_of (fst item) items
          @ concat (map (\<lambda>c. ''\<newline>'' @ category_block items c)
                      (remdups_adj (filter (\<lambda>c. c \<noteq> fst item) (map fst items))))"
      using Cons.IH [OF srt low ne] .
    have nocat: "cat \<notin> fst ` set (item # items)"
    proof
      assume "cat \<in> fst ` set (item # items)"
      then have "cat \<in> fst ` set items" using False by auto
      then have "fst item \<le> cat" using low by blast
      moreover have "cat \<le> fst item" using Cons.prems(2) by simp
      ultimately show False using False by simp
    qed
    then have allne: "filter (\<lambda>c. c \<noteq> cat) (map fst (item # items)) = map fst (item # items)"
      by (auto simp: filter_id_conv)
    have cats: "remdups_adj (map fst (item # items))
        = fst item # remdups_adj (filter (\<lambda>c. c \<noteq> fst item) (map fst items))"
      using remdups_adj_sorted_Cons [of "fst item" "map fst items"] Cons.prems(1) by simp
    have same: "map (\<lambda>c. ''\<newline>'' @ category_block (item # items) c)
                  (remdups_adj (filter (\<lambda>c. c \<noteq> fst item) (map fst items)))
              = map (\<lambda>c. ''\<newline>'' @ category_block items c)
                  (remdups_adj (filter (\<lambda>c. c \<noteq> fst item) (map fst items)))"
      by (intro map_cong refl) (auto simp: category_block_other)
    have blk: "category_block (item # items) (fst item)
        = ''== '' @ Capitalize (fst item) @ '' ==\<newline>'' @ snd item @ ''\<newline>''
          @ lines_of (fst item) items"
      by (simp add: category_block_def lines_of_def)
    have "listing cat (item # items)
        = ''\<newline>'' @ ''== '' @ Capitalize (fst item) @ '' ==\<newline>'' @ snd item @ ''\<newline>''
          @ listing (fst item) items"
      using False Cons.prems(3) by simp
    also have "\<dots> = ''\<newline>'' @ category_block (item # items) (fst item)
          @ concat (map (\<lambda>c. ''\<newline>'' @ category_block (item # items) c)
                      (remdups_adj (filter (\<lambda>c. c \<noteq> fst item) (map fst items))))"
      unfolding ih blk same by simp
    finally show ?thesis
      unfolding lines_of_absent [OF nocat] allne cats by simp
  qed
qed

text \<open>
  Where the categories come in ascending order and none is empty, the text of the loop
  is the specification's listing.
\<close>

lemma listing_is_spec:
  assumes "sorted (map fst items)" and "[] \<notin> fst ` set items"
  shows "listing [] items = help_spec_listing items"
proof (cases items)
  case Nil
  then show ?thesis by (simp add: help_spec_listing_def)
next
  case (Cons item rest)
  have ne: "fst item \<noteq> []" using assms(2) Cons by auto
  have srt: "sorted (map fst rest)" and low: "\<forall>c \<in> fst ` set rest. fst item \<le> c"
    using assms(1) Cons by auto
  have cats: "remdups_adj (map fst (item # rest))
        = fst item # remdups_adj (filter (\<lambda>c. c \<noteq> fst item) (map fst rest))"
    using remdups_adj_sorted_Cons [of "fst item" "map fst rest"] assms(1) Cons by simp
  have same: "map (\<lambda>c. ''\<newline>'' @ category_block (item # rest) c)
                  (remdups_adj (filter (\<lambda>c. c \<noteq> fst item) (map fst rest)))
              = map (\<lambda>c. ''\<newline>'' @ category_block rest c)
                  (remdups_adj (filter (\<lambda>c. c \<noteq> fst item) (map fst rest)))"
    by (intro map_cong refl) (auto simp: category_block_other)
  have blk: "category_block (item # rest) (fst item)
        = ''== '' @ Capitalize (fst item) @ '' ==\<newline>'' @ snd item @ ''\<newline>''
          @ lines_of (fst item) rest"
    by (simp add: category_block_def lines_of_def)
  have "listing [] (item # rest)
      = ''== '' @ Capitalize (fst item) @ '' ==\<newline>'' @ snd item @ ''\<newline>''
        @ listing (fst item) rest"
    using ne by simp
  also have "\<dots> = category_block (item # rest) (fst item)
        @ concat (map (\<lambda>c. ''\<newline>'' @ category_block (item # rest) c)
                    (remdups_adj (filter (\<lambda>c. c \<noteq> fst item) (map fst rest))))"
    unfolding listing_after [OF srt low ne] blk same by simp
  also have "\<dots> = help_spec_listing (item # rest)"
    unfolding help_spec_listing_def cats
    by (simp add: join_blocks_Cons map_map comp_def)
  finally show ?thesis using Cons by simp
qed

lemma distinct_remdups_adj_sorted: "sorted xs \<Longrightarrow> distinct (remdups_adj xs)"
proof (induction xs rule: remdups_adj.induct)
  case 1
  then show ?case by simp
next
  case (2 x)
  then show ?case by simp
next
  case (3 x y xs)
  show ?case
  proof (cases "x = y")
    case True
    then show ?thesis using 3 by simp
  next
    case False
    have "x \<notin> set (y # xs)" using "3.prems" False by auto
    then show ?thesis using 3 False by simp
  qed
qed

lemma distinct_map_insort_key:
  "distinct (map g (insort_key k x xs)) = (g x \<notin> g ` set xs \<and> distinct (map g xs))"
  by (induction xs) (auto simp: set_insort_key)

lemma distinct_map_sort_key:
  "distinct (map g (sort_key k xs)) = distinct (map g xs)"
  by (induction xs) (simp_all add: distinct_map_insort_key)

text \<open>A command that the filter passes over is not called and adds nothing.\<close>

lemma help_loop_passed_over:
  "\<forall>command \<in> set cmds. passed_over strCommand (snd command)
    \<Longrightarrow> help_loop strCommand jreq cmds strRet cat setDone s = (Inr strRet, s)"
  by (induction cmds) simp_all

lemma help_loop_step:
  assumes "\<not> passed_over strCommand (snd command)" and "fst (snd command) \<notin> setDone"
    and "call (snd command) s (jreq\<lparr>strMethod := name (snd (snd command))\<rparr>)
           = (Inl (StdException what), s1)"
  shows "help_loop strCommand jreq (command # rest) strRet cat setDone s
     = (if strCommand = []
        then (if cat \<noteq> category (snd (snd command))
              then help_loop strCommand jreq rest
                     (strRet @ (if cat \<noteq> [] then ''\<newline>'' else [])
                        @ ''== '' @ Capitalize (category (snd (snd command))) @ '' ==\<newline>''
                        @ first_line what @ ''\<newline>'')
                     (category (snd (snd command))) (insert (fst (snd command)) setDone) s1
              else help_loop strCommand jreq rest
                     (strRet @ first_line what @ ''\<newline>'')
                     cat (insert (fst (snd command)) setDone) s1)
        else help_loop strCommand jreq rest (strRet @ what @ ''\<newline>'')
               cat (insert (fst (snd command)) setDone) s1)"
  using assms by (simp add: Let_def)

text \<open>
  The loop over handlers that, asked for help, throw their usage text as a
  \<^verbatim>\<open>std::exception\<close> and leave the state alone; no two commands at the same address.
\<close>

lemma help_loop_filter:
  assumes "strCommand \<noteq> []" and "fHelp jreq"
    and "\<forall>command \<in> set cmds. \<forall>s r. fHelp r \<longrightarrow>
           call (snd command) s r = (Inl (StdException (usage (snd command))), s)"
    and "distinct (map (\<lambda>c. fst (snd c)) cmds)"
    and "(\<lambda>c. fst (snd c)) ` set cmds \<inter> setDone = {}"
  shows "help_loop strCommand jreq cmds strRet cat setDone s
     = (Inr (strRet @ concat (map (\<lambda>command. usage (snd command) @ ''\<newline>'')
                (filter (\<lambda>command. name (snd (snd command)) = strCommand) cmds))), s)"
  using assms(3-5)
proof (induction cmds arbitrary: strRet setDone)
  case Nil
  then show ?case by simp
next
  case (Cons command rest)
  have usage_rest: "\<forall>command \<in> set rest. \<forall>s r. fHelp r \<longrightarrow>
           call (snd command) s r = (Inl (StdException (usage (snd command))), s)"
    using Cons.prems(1) by simp
  have dist_rest: "distinct (map (\<lambda>c. fst (snd c)) rest)"
    using Cons.prems(2) by simp
  show ?case
  proof (cases "name (snd (snd command)) = strCommand")
    case False
    have "(\<lambda>c. fst (snd c)) ` set rest \<inter> setDone = {}" using Cons.prems(3) by auto
    then show ?thesis
      using False assms(1) Cons.IH [OF usage_rest dist_rest] by (simp add: passed_over_def)
  next
    case True
    have notdone: "fst (snd command) \<notin> setDone" using Cons.prems(3) by auto
    have h: "fHelp (jreq\<lparr>strMethod := name (snd (snd command))\<rparr>)" using assms(2) by simp
    have c: "call (snd command) s (jreq\<lparr>strMethod := name (snd (snd command))\<rparr>)
        = (Inl (StdException (usage (snd command))), s)"
      using Cons.prems(1) h by simp
    have "(\<lambda>c. fst (snd c)) ` set rest \<inter> insert (fst (snd command)) setDone = {}"
      using Cons.prems(2,3) by auto
    then have ih: "help_loop strCommand jreq rest (strRet @ usage (snd command) @ ''\<newline>'') cat
          (insert (fst (snd command)) setDone) s
        = (Inr ((strRet @ usage (snd command) @ ''\<newline>'')
             @ concat (map (\<lambda>command. usage (snd command) @ ''\<newline>'')
                (filter (\<lambda>command. name (snd (snd command)) = strCommand) rest))), s)"
      by (rule Cons.IH [OF usage_rest dist_rest])
    have np: "\<not> passed_over strCommand (snd command)"
      using True by (simp add: passed_over_def)
    show ?thesis
      unfolding help_loop_step [OF np notdone c] using assms(1) True by (simp add: ih)
  qed
qed

lemma help_loop_listing:
  assumes "fHelp jreq"
    and "\<forall>command \<in> set cmds. \<forall>s r. fHelp r \<longrightarrow>
           call (snd command) s r = (Inl (StdException (usage (snd command))), s)"
    and "distinct (map (\<lambda>c. fst (snd c)) cmds)"
    and "(\<lambda>c. fst (snd c)) ` set cmds \<inter> setDone = {}"
  shows "help_loop [] jreq cmds strRet cat setDone s
     = (Inr (strRet @ listing cat
               (map (\<lambda>command. (category (snd (snd command)), first_line (usage (snd command))))
                  (filter (\<lambda>command. \<not> passed_over [] (snd command)) cmds))), s)"
  using assms(2-4)
proof (induction cmds arbitrary: strRet cat setDone)
  case Nil
  then show ?case by simp
next
  case (Cons command rest)
  have usage_rest: "\<forall>command \<in> set rest. \<forall>s r. fHelp r \<longrightarrow>
           call (snd command) s r = (Inl (StdException (usage (snd command))), s)"
    using Cons.prems(1) by simp
  have dist_rest: "distinct (map (\<lambda>c. fst (snd c)) rest)"
    using Cons.prems(2) by simp
  show ?case
  proof (cases "passed_over [] (snd command)")
    case True
    have "(\<lambda>c. fst (snd c)) ` set rest \<inter> setDone = {}" using Cons.prems(3) by auto
    then show ?thesis
      using True Cons.IH [OF usage_rest dist_rest] by simp
  next
    case False
    have notdone: "fst (snd command) \<notin> setDone" using Cons.prems(3) by auto
    have h: "fHelp (jreq\<lparr>strMethod := name (snd (snd command))\<rparr>)" using assms(1) by simp
    have c: "call (snd command) s (jreq\<lparr>strMethod := name (snd (snd command))\<rparr>)
        = (Inl (StdException (usage (snd command))), s)"
      using Cons.prems(1) h by simp
    have disj: "(\<lambda>c. fst (snd c)) ` set rest \<inter> insert (fst (snd command)) setDone = {}"
      using Cons.prems(2,3) by auto
    note ih = Cons.IH [OF usage_rest dist_rest disj]
    show ?thesis
      unfolding help_loop_step [OF False notdone c] using False by (simp add: ih)
  qed
qed

lemma listing_nonempty: "items \<noteq> [] \<Longrightarrow> listing cat items \<noteq> []"
  by (cases items) simp_all

text \<open>
  C8, as amended. \<^verbatim>\<open>CRPCTable::help\<close> goes through the static commands in ascending order
  of the string \<open>category + name\<close> (then of the address), passing over every command
  whose name is not the filter when the filter is not empty or the command is in the
  category \<open>hidden\<close>. The handlers are taken to throw their usage text when asked for
  help, and no two commands to share an address. When no command is listed the result
  is \<open>help: unknown command:\<close> and the filter. With a filter, the result is the usage
  text of the commands of that name, each followed by a newline, without the last
  character. With an empty filter every listed command gives the first line of its
  usage text, with a header at each change of category; where the categories of the
  listed commands come in ascending order and none is empty, that is one group for each
  distinct category, its header first. In each case the result is the text without its
  last character, the newline that \<open>help\<close> itself added.
\<close>

theorem help_listing:
  assumes "\<forall>entry \<in> set mapCommands. \<forall>s r. fHelp r \<longrightarrow>
             call (snd entry) s r = (Inl (StdException (usage (snd entry))), s)"
    and "distinct (map (\<lambda>entry. fst (snd entry)) mapCommands)"
    and "listed = filter (\<lambda>command. \<not> passed_over strCommand (snd command)) (vCommands mapCommands)"
    and "items = map (\<lambda>command. (category (snd (snd command)), first_line (usage (snd command))))
                   listed"
  shows "sorted (map (\<lambda>command. (fst command, fst (snd command))) (vCommands mapCommands))
     \<and> set (vCommands mapCommands)
         = (\<lambda>entry. (category (snd (snd entry)) @ fst entry, snd entry)) ` set mapCommands
     \<and> (listed = [] \<longrightarrow>
          CRPCTable_help mapCommands s strCommand helpreq
            = (Inr (''help: unknown command: '' @ strCommand), s))
     \<and> (strCommand \<noteq> [] \<and> listed \<noteq> [] \<longrightarrow>
          (\<forall>command \<in> set listed. name (snd (snd command)) = strCommand)
          \<and> CRPCTable_help mapCommands s strCommand helpreq
            = (Inr (butlast (concat (map (\<lambda>command. usage (snd command) @ ''\<newline>'') listed))), s))
     \<and> (strCommand = [] \<and> listed \<noteq> [] \<longrightarrow>
          CRPCTable_help mapCommands s strCommand helpreq = (Inr (butlast (listing [] items)), s))
     \<and> (strCommand = [] \<and> listed \<noteq> [] \<and> sorted (map fst items) \<and> [] \<notin> fst ` set items \<longrightarrow>
          CRPCTable_help mapCommands s strCommand helpreq
            = (Inr (butlast (help_spec_listing items)), s)
          \<and> distinct (remdups_adj (map fst items)))"
proof -
  let ?jreq = "helpreq\<lparr>fHelp := True, params := VNULL\<rparr>"
  let ?v = "vCommands mapCommands"
  have fh: "fHelp ?jreq" by simp
  have setv: "set ?v = (\<lambda>entry. (category (snd (snd entry)) @ fst entry, snd entry)) ` set mapCommands"
    by (simp add: vCommands_def)
  have usage_v: "\<forall>command \<in> set ?v. \<forall>s r. fHelp r \<longrightarrow>
           call (snd command) s r = (Inl (StdException (usage (snd command))), s)"
    using assms(1) unfolding setv by simp
  have dist_v: "distinct (map (\<lambda>c. fst (snd c)) ?v)"
    using assms(2) by (simp add: vCommands_def distinct_map_sort_key comp_def)
  have disj: "(\<lambda>c. fst (snd c)) ` set ?v \<inter> {} = {}" by simp
  have sorted_v: "sorted (map (\<lambda>command. (fst command, fst (snd command))) ?v)"
    unfolding vCommands_def by (rule sorted_sort_key)
  have unknown: "CRPCTable_help mapCommands s strCommand helpreq
            = (Inr (''help: unknown command: '' @ strCommand), s)" if "listed = []"
  proof -
    have "\<forall>command \<in> set ?v. passed_over strCommand (snd command)"
      using that assms(3) by (simp add: filter_empty_conv)
    then have "help_loop strCommand ?jreq ?v [] [] {} s = (Inr [], s)"
      by (rule help_loop_passed_over)
    then show ?thesis by (simp add: CRPCTable_help_def)
  qed
  have named: "(\<forall>command \<in> set listed. name (snd (snd command)) = strCommand)
          \<and> CRPCTable_help mapCommands s strCommand helpreq
            = (Inr (butlast (concat (map (\<lambda>command. usage (snd command) @ ''\<newline>'') listed))), s)"
    if filt: "strCommand \<noteq> []" and some: "listed \<noteq> []"
  proof -
    have po: "\<And>p. passed_over strCommand p = (name (snd p) \<noteq> strCommand)"
      using filt by (simp add: passed_over_def)
    have l: "listed = filter (\<lambda>command. name (snd (snd command)) = strCommand) ?v"
      using assms(3) by (simp add: po)
    obtain c0 rest where cons: "listed = c0 # rest" using some by (cases listed) auto
    have ne: "concat (map (\<lambda>command. usage (snd command) @ ''\<newline>'') listed) \<noteq> []"
      unfolding cons by simp
    have "help_loop strCommand ?jreq ?v [] [] {} s
        = (Inr ([] @ concat (map (\<lambda>command. usage (snd command) @ ''\<newline>'') listed)), s)"
      unfolding l by (rule help_loop_filter [OF filt fh usage_v dist_v disj])
    then have "CRPCTable_help mapCommands s strCommand helpreq
            = (Inr (butlast (concat (map (\<lambda>command. usage (snd command) @ ''\<newline>'') listed))), s)"
      using ne by (simp add: CRPCTable_help_def)
    moreover have "\<forall>command \<in> set listed. name (snd (snd command)) = strCommand"
      unfolding l by simp
    ultimately show ?thesis by simp
  qed
  have summary: "CRPCTable_help mapCommands s strCommand helpreq
      = (Inr (butlast (listing [] items)), s)"
    if "strCommand = []" "listed \<noteq> []"
  proof -
    have l: "listed = filter (\<lambda>command. \<not> passed_over [] (snd command)) ?v"
      using assms(3) that(1) by simp
    have "items \<noteq> []" using that(2) assms(4) by simp
    then have ne: "listing [] items \<noteq> []" by (rule listing_nonempty)
    have "help_loop [] ?jreq ?v [] [] {} s = (Inr ([] @ listing [] items), s)"
      unfolding assms(4) l by (rule help_loop_listing [OF fh usage_v dist_v disj])
    then show ?thesis using ne that(1) by (simp add: CRPCTable_help_def)
  qed
  have grouped: "CRPCTable_help mapCommands s strCommand helpreq
            = (Inr (butlast (help_spec_listing items)), s)
          \<and> distinct (remdups_adj (map fst items))"
    if "strCommand = []" "listed \<noteq> []" "sorted (map fst items)" "[] \<notin> fst ` set items"
    using summary [OF that(1,2)] listing_is_spec [OF that(3,4)]
      distinct_remdups_adj_sorted [OF that(3)] by simp
  show ?thesis
    using sorted_v setv unknown named summary grouped by blast
qed

lemma Capitalize_control: "Capitalize ''control'' = ''Control''"
  by code_simp

lemma Capitalize_network: "Capitalize ''network'' = ''Network''"
  by code_simp

lemma Capitalize_net: "Capitalize ''net'' = ''Net''"
  by code_simp

lemma first_line_uptime_usage: "first_line (uptime_usage ''uptime\<newline>'') = ''uptime''"
  by (simp add: first_line_def uptime_usage_def)

lemma last_uptime_usage: "last (uptime_usage helpman) = CHR ''\<newline>''"
  by (simp add: uptime_usage_def HelpExampleRpc_def)

lemma uptime_usage_nonempty: "uptime_usage helpman \<noteq> []"
  by (simp add: uptime_usage_def HelpExampleRpc_def)

theorem help_listing_witness:
  "(let t = [(''getrpcinfo'', (0, \<lparr>category = ''control'', name = ''getrpcinfo'',
                 actor = getrpcinfo ''getrpcinfo\<newline>\<newline>Returns details of the RPC server.\<newline>'',
                 argNames = []\<rparr>)),
             (''ping'', (5, \<lparr>category = ''network'', name = ''ping'',
                 actor = (\<lambda>s r. (Inl (StdException ''ping\<newline>\<newline>Requests a ping.''), s)),
                 argNames = []\<rparr>)),
             (''setmocktime'', (7, \<lparr>category = ''hidden'', name = ''setmocktime'',
                 actor = (\<lambda>s r. (Inl (StdException ''setmocktime timestamp''), s)),
                 argNames = [''timestamp'']\<rparr>)),
             (''uptime'', (3, \<lparr>category = ''control'', name = ''uptime'',
                 actor = uptime ''uptime\<newline>'' 0, argNames = []\<rparr>))];
        s = initial_state 0 ();
        r = \<lparr>id_val = VNUM 1, strMethod = ''help'', params = VARR [], fHelp = False\<rparr>
    in CRPCTable_help t s [] r
         = (Inr ''== Control ==\<newline>getrpcinfo\<newline>uptime\<newline>\<newline>== Network ==\<newline>ping'', s)
       \<and> CRPCTable_help t s ''uptime'' r = (Inr (uptime_usage ''uptime\<newline>''), s)
       \<and> CRPCTable_help t s ''setmocktime'' r = (Inr ''setmocktime timestamp'', s)
       \<and> CRPCTable_help t s ''nosuch'' r = (Inr ''help: unknown command: nosuch'', s))"
proof -
  let ?getrpcinfo = "(0 :: nat, \<lparr>category = ''control'', name = ''getrpcinfo'',
      actor = getrpcinfo ''getrpcinfo\<newline>\<newline>Returns details of the RPC server.\<newline>'',
      argNames = []\<rparr>)"
  let ?ping = "(5 :: nat, \<lparr>category = ''network'', name = ''ping'',
      actor = (\<lambda>(s :: unit rpc_state) (r :: JSONRPCRequest).
                 (Inl (StdException ''ping\<newline>\<newline>Requests a ping.'') :: exn + UniValue, s)),
      argNames = []\<rparr>)"
  let ?setmocktime = "(7 :: nat, \<lparr>category = ''hidden'', name = ''setmocktime'',
      actor = (\<lambda>(s :: unit rpc_state) (r :: JSONRPCRequest).
                 (Inl (StdException ''setmocktime timestamp'') :: exn + UniValue, s)),
      argNames = [''timestamp'']\<rparr>)"
  let ?uptime = "(3 :: nat, \<lparr>category = ''control'', name = ''uptime'',
      actor = uptime ''uptime\<newline>'' 0, argNames = []\<rparr>)"
  let ?t = "[(''getrpcinfo'', ?getrpcinfo), (''ping'', ?ping), (''setmocktime'', ?setmocktime),
             (''uptime'', ?uptime)]"
  let ?s = "initial_state 0 ()"
  let ?r = "\<lparr>id_val = VNUM 1, strMethod = ''help'', params = VARR [], fHelp = False\<rparr>"
  let ?usage = "\<lambda>p :: unit cmd_ptr.
      if fst p = 0 then ''getrpcinfo\<newline>\<newline>Returns details of the RPC server.\<newline>''
      else if fst p = 3 then uptime_usage ''uptime\<newline>''
      else if fst p = 5 then ''ping\<newline>\<newline>Requests a ping.''
      else ''setmocktime timestamp''"
  have H: "\<forall>entry \<in> set ?t. \<forall>s r. fHelp r \<longrightarrow>
             call (snd entry) s r = (Inl (StdException (?usage (snd entry))), s)"
    by (simp add: call_def getrpcinfo_def uptime_def)
  have D: "distinct (map (\<lambda>entry. fst (snd entry)) ?t)"
    by simp
  have v: "vCommands ?t
      = [(''controlgetrpcinfo'', ?getrpcinfo), (''controluptime'', ?uptime),
         (''hiddensetmocktime'', ?setmocktime), (''networkping'', ?ping)]"
    by (simp add: vCommands_def)
  note inst = help_listing [OF H D refl refl, where s = ?s and helpreq = ?r]
  have a: "CRPCTable_help ?t ?s [] ?r
      = (Inr ''== Control ==\<newline>getrpcinfo\<newline>uptime\<newline>\<newline>== Network ==\<newline>ping'', ?s)"
  proof -
    have l: "filter (\<lambda>command. \<not> passed_over [] (snd command)) (vCommands ?t)
        = [(''controlgetrpcinfo'', ?getrpcinfo), (''controluptime'', ?uptime),
           (''networkping'', ?ping)]"
      unfolding v by (simp add: passed_over_def)
    have f1: "first_line ''getrpcinfo\<newline>\<newline>Returns details of the RPC server.\<newline>'' = ''getrpcinfo''"
      by (simp add: first_line_def)
    have f2: "first_line ''ping\<newline>\<newline>Requests a ping.'' = ''ping''"
      by (simp add: first_line_def)
    show ?thesis
      using inst [where strCommand = "[]", unfolded l]
      by (simp add: f1 f2 first_line_uptime_usage help_spec_listing_def category_block_def
            lines_of_def Capitalize_control Capitalize_network)
  qed
  have b: "CRPCTable_help ?t ?s ''uptime'' ?r = (Inr (uptime_usage ''uptime\<newline>''), ?s)"
  proof -
    have l: "filter (\<lambda>command. \<not> passed_over ''uptime'' (snd command)) (vCommands ?t)
        = [(''controluptime'', ?uptime)]"
      unfolding v by (simp add: passed_over_def)
    show ?thesis
      using inst [where strCommand = "''uptime''", unfolded l] by simp
  qed
  have c: "CRPCTable_help ?t ?s ''setmocktime'' ?r = (Inr ''setmocktime timestamp'', ?s)"
  proof -
    have l: "filter (\<lambda>command. \<not> passed_over ''setmocktime'' (snd command)) (vCommands ?t)
        = [(''hiddensetmocktime'', ?setmocktime)]"
      unfolding v by (simp add: passed_over_def)
    show ?thesis
      using inst [where strCommand = "''setmocktime''", unfolded l] by simp
  qed
  have d: "CRPCTable_help ?t ?s ''nosuch'' ?r = (Inr ''help: unknown command: nosuch'', ?s)"
  proof -
    have l: "filter (\<lambda>command. \<not> passed_over ''nosuch'' (snd command)) (vCommands ?t) = []"
      unfolding v by (simp add: passed_over_def)
    show ?thesis
      using inst [where strCommand = "''nosuch''", unfolded l] by simp
  qed
  show ?thesis
    unfolding Let_def using a b c d by (intro conjI)
qed

text \<open>
  The claim as stated fails in two ways. The usage text of \<^verbatim>\<open>uptime\<close> ends with the newline
  of \<^verbatim>\<open>HelpExampleRpc\<close>, and \<open>help uptime\<close> returns it whole, newline included. And the
  order of the strings \<open>category + name\<close> is not the order of the categories when one
  category begins with another: with the categories \<open>net\<close> and \<open>network\<close> the header of
  \<open>net\<close> comes twice.
\<close>

theorem help_trailing_newline_and_repeated_header:
  "fst (CRPCTable_help
          [(''uptime'', (3, \<lparr>category = ''control'', name = ''uptime'',
              actor = uptime ''uptime\<newline>'' 0, argNames = []\<rparr>))]
          (initial_state 0 ()) ''uptime''
          \<lparr>id_val = VNUM 1, strMethod = ''help'', params = VARR [], fHelp = False\<rparr>)
     = Inr (uptime_usage ''uptime\<newline>'')
   \<and> last (uptime_usage ''uptime\<newline>'') = CHR ''\<newline>''
   \<and> fst (CRPCTable_help
          [(''a'', (1, \<lparr>category = ''net'', name = ''a'',
              actor = (\<lambda>s r. (Inl (StdException ''a''), s)), argNames = []\<rparr>)),
           (''x'', (2, \<lparr>category = ''network'', name = ''x'',
              actor = (\<lambda>s r. (Inl (StdException ''x''), s)), argNames = []\<rparr>)),
           (''z'', (3, \<lparr>category = ''net'', name = ''z'',
              actor = (\<lambda>s r. (Inl (StdException ''z''), s)), argNames = []\<rparr>))]
          (initial_state 0 ()) []
          \<lparr>id_val = VNUM 1, strMethod = ''help'', params = VARR [], fHelp = False\<rparr>)
     = Inr ''== Net ==\<newline>a\<newline>\<newline>== Network ==\<newline>x\<newline>\<newline>== Net ==\<newline>z''"
proof (intro conjI)
  show "fst (CRPCTable_help
          [(''uptime'', (3, \<lparr>category = ''control'', name = ''uptime'',
              actor = uptime ''uptime\<newline>'' 0, argNames = []\<rparr>))]
          (initial_state 0 ()) ''uptime''
          \<lparr>id_val = VNUM 1, strMethod = ''help'', params = VARR [], fHelp = False\<rparr>)
     = Inr (uptime_usage ''uptime\<newline>'')"
    by (simp add: CRPCTable_help_def vCommands_def passed_over_def call_def uptime_def
          uptime_usage_nonempty)
  show "last (uptime_usage ''uptime\<newline>'') = CHR ''\<newline>''"
    by (rule last_uptime_usage)
  show "fst (CRPCTable_help
          [(''a'', (1, \<lparr>category = ''net'', name = ''a'',
              actor = (\<lambda>s r. (Inl (StdException ''a''), s)), argNames = []\<rparr>)),
           (''x'', (2, \<lparr>category = ''network'', name = ''x'',
              actor = (\<lambda>s r. (Inl (StdException ''x''), s)), argNames = []\<rparr>)),
           (''z'', (3, \<lparr>category = ''net'', name = ''z'',
              actor = (\<lambda>s r. (Inl (StdException ''z''), s)), argNames = []\<rparr>))]
          (initial_state 0 ()) []
          \<lparr>id_val = VNUM 1, strMethod = ''help'', params = VARR [], fHelp = False\<rparr>)
     = Inr ''== Net ==\<newline>a\<newline>\<newline>== Network ==\<newline>x\<newline>\<newline>== Net ==\<newline>z''"
    by (simp add: CRPCTable_help_def vCommands_def passed_over_def call_def first_line_def
          Capitalize_net Capitalize_network)
qed


end
